theory Spec2Isabelle
  imports Main
begin

section \<open>Python values\<close>

text \<open>
  The archive handles JSON documents: conversation records, listing metadata, wrapper
  files and the manifest. A Python dict is an association list in insertion order
  (looked up with \<open>map_of\<close>), Python's \<open>None\<close> is \<open>JNull\<close>, and \<open>str\<close> and
  \<open>bytes\<close> are both \<open>string\<close> (\<open>encode\<close> and \<open>decode\<close> are the identity on the
  ASCII text that \<open>json.dumps\<close> and \<open>hexdigest\<close> produce).
\<close>

datatype json =
    JNull
  | JBool bool
  | JNum int
  | JStr string
  | JArr "json list"
  | JObj "(string \<times> json) list"

datatype exn =
    AttributeError
  | TypeError
  | ValueError string
  | OSError
  | FileExistsError
  | RuntimeError string
  | PermissionError string
  | OtherException string

text \<open>Truth value testing, as \<open>if x\<close>, \<open>not x\<close> and \<open>x or y\<close> use it.\<close>

fun truthy :: "json \<Rightarrow> bool" where
  "truthy JNull = False"
| "truthy (JBool b) = b"
| "truthy (JNum n) = (n \<noteq> 0)"
| "truthy (JStr s) = (s \<noteq> [])"
| "truthy (JArr xs) = (xs \<noteq> [])"
| "truthy (JObj kvs) = (kvs \<noteq> [])"

text \<open>\<open>d.get(k, default)\<close>: only a dict has \<open>get\<close>; on any other value the attribute
  lookup raises.\<close>

fun py_get :: "json \<Rightarrow> string \<Rightarrow> json \<Rightarrow> exn + json" where
  "py_get (JObj kvs) k dflt = Inr (case map_of kvs k of Some v \<Rightarrow> v | None \<Rightarrow> dflt)"
| "py_get _ k dflt = Inl AttributeError"

text \<open>\<open>d[k] = v\<close> on a dict: an existing key keeps its place.\<close>

fun dict_set :: "(string \<times> json) list \<Rightarrow> string \<Rightarrow> json \<Rightarrow> (string \<times> json) list" where
  "dict_set [] k v = [(k, v)]"
| "dict_set ((k', v') # kvs) k v =
     (if k' = k then (k, v) # kvs else (k', v') # dict_set kvs k v)"

section \<open>Library functions the archive calls\<close>

text \<open>
  \<open>hashlib\<close>, \<open>base64\<close>, \<open>cryptography.fernet\<close>, \<open>json\<close> and \<open>pathlib\<close>'s glob
  matching are not code of the repository. They are parameters of the model; what a
  property needs of them is a stated contract.
  \<^item> \<open>fernet_encrypt key entropy plaintext\<close>: \<open>Fernet(key).encrypt\<close>, with the IV and
    timestamp it draws as \<open>entropy\<close>; \<open>None\<close> when the call raises.
  \<^item> \<open>fernet_decrypt key token\<close>: \<open>Inl\<close> says which exception \<open>decrypt\<close> raised.
  \<^item> \<open>fernet_valid_key k\<close>: the constructor \<open>Fernet(k)\<close> accepts \<open>k\<close>.
  \<^item> \<open>json_dumps\<close>, \<open>json_loads\<close>: \<open>None\<close> when the call raises.
  \<^item> \<open>glob_match pattern name\<close>: \<open>Path.glob\<close> yields the entry \<open>name\<close>.
  \<^item> \<open>glob_error pattern\<close>: the exception \<open>Path.glob\<close> raises for the pattern
    when its result is first iterated, as the \<open>ValueError\<close> for a pattern with
    \<open>**\<close> inside a path component; \<open>None\<close> when it accepts the pattern.
\<close>

datatype decrypt_error = InvalidToken | DecryptOther

record libs =
  sha256_hex :: "string \<Rightarrow> string"
  b64encode :: "string \<Rightarrow> string"
  b64decode :: "string \<Rightarrow> string option"
  fernet_encrypt :: "string \<Rightarrow> string \<Rightarrow> string \<Rightarrow> string option"
  fernet_decrypt :: "string \<Rightarrow> string \<Rightarrow> decrypt_error + string"
  fernet_valid_key :: "string \<Rightarrow> bool"
  fernet_generate_key :: "string \<Rightarrow> string"
  json_dumps :: "json \<Rightarrow> string option"
  json_loads :: "string \<Rightarrow> json option"
  glob_match :: "string \<Rightarrow> string \<Rightarrow> bool"
  glob_error :: "string \<Rightarrow> exn option"

section \<open>The conversations directory\<close>

text \<open>
  \<open>entries\<close> is the order in which \<open>iterdir\<close> yields the children of
  \<open>conversations/\<close>; a child is a date directory (\<open>Dir\<close>, with the order in which its
  files are listed and their text) or something else. A path is a pair of a directory
  name and a file name.
\<close>

datatype node = NotDir | Dir "string list" "string \<rightharpoonup> string"

record conv_dir =
  entries :: "string list"
  node_of :: "string \<rightharpoonup> node"

type_synonym path = "string \<times> string"

text \<open>What exists is what is listed: a directory is one that \<open>entries\<close> names and
  \<open>node_of\<close> knows as \<open>Dir\<close>, a file one that its directory lists. A listed file
  without text cannot be opened.\<close>

definition lookup_dir :: "conv_dir \<Rightarrow> string \<Rightarrow> (string list \<times> (string \<rightharpoonup> string)) option" where
  "lookup_dir cd d =
     (if d \<in> set (entries cd) then
        (case node_of cd d of
           Some (Dir listed files) \<Rightarrow> Some (listed, files)
         | _ \<Rightarrow> None)
      else None)"

definition read_file :: "conv_dir \<Rightarrow> path \<Rightarrow> string option" where
  "read_file cd p =
     (case lookup_dir cd (fst p) of
        Some (listed, files) \<Rightarrow> if snd p \<in> set listed then files (snd p) else None
      | None \<Rightarrow> None)"

definition dir_matches :: "(string \<Rightarrow> bool) \<Rightarrow> conv_dir \<Rightarrow> string \<Rightarrow> path list" where
  "dir_matches m cd d =
     (case lookup_dir cd d of
        Some (listed, files) \<Rightarrow> map (\<lambda>f. (d, f)) (filter m listed)
      | None \<Rightarrow> [])"

definition iter_archive_files :: "(string \<Rightarrow> bool) \<Rightarrow> conv_dir \<Rightarrow> path list" where
  "iter_archive_files m cd = concat (map (dir_matches m cd) (entries cd))"

text \<open>\<open>_iter_archive_files\<close> calls \<open>glob\<close> on the children that are directories
  only, so a pattern is looked at when there is one.\<close>

definition has_dir :: "conv_dir \<Rightarrow> bool" where
  "has_dir cd = (\<exists>d \<in> set (entries cd). lookup_dir cd d \<noteq> None)"

section \<open>LocalEncryptedStore\<close>

datatype IntegrityState = VALID | CORRUPT | UNREADABLE | MISSING | UNKNOWN

record IntegrityResult =
  conversation_id :: string
  state :: IntegrityState
  filepath :: "path option"
  size_bytes :: "nat option"
  expected_checksum :: json
  actual_checksum :: "string option"
  error_code :: "string option"

record store =
  encryption_key :: string
  key_fingerprint :: string
  key_mismatch :: bool

definition file_token :: "libs \<Rightarrow> string \<Rightarrow> string" where
  "file_token L cid = take 16 (sha256_hex L cid)"

definition wrapper_name :: "libs \<Rightarrow> string \<Rightarrow> string" where
  "wrapper_name L cid = ''conv-'' @ file_token L cid @ ''.enc''"

definition ensure_key_matches_manifest :: "store \<Rightarrow> bool" where
  "ensure_key_matches_manifest st = (\<not> key_mismatch st)"

subsection \<open>Verification primitives\<close>

definition load_wrapper :: "libs \<Rightarrow> conv_dir \<Rightarrow> path \<Rightarrow> json option" where
  "load_wrapper L cd fp =
     (case read_file cd fp of
        None \<Rightarrow> None
      | Some text \<Rightarrow> json_loads L text)"

text \<open>\<open>base64.b64decode\<close> of a value that is not a string raises, which the source
  catches like a malformed string.\<close>

fun b64decode_value :: "libs \<Rightarrow> json \<Rightarrow> string option" where
  "b64decode_value L (JStr s) = b64decode L s"
| "b64decode_value L _ = None"

definition decrypt_bytes :: "libs \<Rightarrow> store \<Rightarrow> json \<Rightarrow> exn + (string option \<times> string option)" where
  "decrypt_bytes L st wrapper =
     (case py_get wrapper ''encrypted_content'' (JStr []) of
        Inl e \<Rightarrow> Inl e
      | Inr encrypted_b64 \<Rightarrow>
          Inr (if \<not> truthy encrypted_b64 then (None, Some ''WRAPPER_NO_CONTENT'')
               else (case b64decode_value L encrypted_b64 of
                      None \<Rightarrow> (None, Some ''WRAPPER_B64_DECODE_FAIL'')
                    | Some encrypted \<Rightarrow>
                        (case fernet_decrypt L (encryption_key st) encrypted of
                           Inr decrypted_bytes \<Rightarrow> (Some decrypted_bytes, None)
                         | Inl InvalidToken \<Rightarrow> (None, Some ''DECRYPT_INVALID_TOKEN'')
                         | Inl DecryptOther \<Rightarrow> (None, Some ''DECRYPT_FAIL'')))))"

definition file_size :: "conv_dir \<Rightarrow> path \<Rightarrow> nat option" where
  "file_size cd fp = map_option length (read_file cd fp)"

definition verify_wrapper ::
  "libs \<Rightarrow> store \<Rightarrow> conv_dir \<Rightarrow> string \<Rightarrow> path \<Rightarrow> json \<Rightarrow> bool
     \<Rightarrow> exn + (IntegrityResult \<times> json)" where
  "verify_wrapper L st cd cid fp wrapper return_content =
     (case py_get wrapper ''checksum'' JNull of
        Inl e \<Rightarrow> Inl e
      | Inr expected \<Rightarrow>
     (case decrypt_bytes L st wrapper of
        Inl e \<Rightarrow> Inl e
      | Inr (None, err) \<Rightarrow>
          Inr (\<lparr>conversation_id = cid,
                state = (if err \<noteq> None \<and> err \<noteq> Some [] then UNREADABLE else UNKNOWN),
                filepath = Some fp, size_bytes = file_size cd fp,
                expected_checksum = expected, actual_checksum = None,
                error_code = (if err \<noteq> None \<and> err \<noteq> Some [] then err
                              else Some ''VERIFY_UNKNOWN'')\<rparr>, JNull)
      | Inr (Some decrypted_bytes, err) \<Rightarrow>
          (let actual = sha256_hex L decrypted_bytes in
           if truthy expected \<and> JStr actual \<noteq> expected then
             Inr (\<lparr>conversation_id = cid, state = CORRUPT,
                   filepath = Some fp, size_bytes = file_size cd fp,
                   expected_checksum = expected, actual_checksum = Some actual,
                   error_code = Some ''CHECKSUM_MISMATCH''\<rparr>, JNull)
           else if \<not> return_content then
             Inr (\<lparr>conversation_id = cid, state = VALID,
                   filepath = Some fp, size_bytes = file_size cd fp,
                   expected_checksum = expected, actual_checksum = Some actual,
                   error_code = None\<rparr>, JNull)
           else (case json_loads L decrypted_bytes of
                  Some content \<Rightarrow>
                    Inr (\<lparr>conversation_id = cid, state = VALID,
                          filepath = Some fp, size_bytes = file_size cd fp,
                          expected_checksum = expected, actual_checksum = Some actual,
                          error_code = None\<rparr>, content)
                | None \<Rightarrow>
                    Inr (\<lparr>conversation_id = cid, state = UNKNOWN,
                          filepath = Some fp, size_bytes = file_size cd fp,
                          expected_checksum = expected, actual_checksum = Some actual,
                          error_code = Some ''JSON_DECODE_FAIL''\<rparr>, JNull)))))"

subsection \<open>Lookup helpers\<close>

text \<open>The token is the head of a hex digest, so the pattern \<open>conv-<token>.enc\<close> has no
  wildcard and matches the file of that name only.\<close>

definition find_by_new_token :: "libs \<Rightarrow> conv_dir \<Rightarrow> string \<Rightarrow> path option" where
  "find_by_new_token L cd cid =
     (case iter_archive_files (\<lambda>f. f = wrapper_name L cid) cd of
        [] \<Rightarrow> None
      | fp # _ \<Rightarrow> Some fp)"

text \<open>The legacy pattern holds the first eight characters of the id as they are. When
  \<open>glob\<close> rejects it, the loop raises at the first date directory, before any file is
  yielded; with no date directory \<open>glob\<close> is not called and nothing is found.\<close>

definition legacy_pattern :: "string \<Rightarrow> string" where
  "legacy_pattern cid = ''conv-'' @ take 8 cid @ ''*.enc''"

definition find_by_legacy_prefix :: "libs \<Rightarrow> conv_dir \<Rightarrow> string \<Rightarrow> exn + path option" where
  "find_by_legacy_prefix L cd cid =
     (case glob_error L (legacy_pattern cid) of
        Some e \<Rightarrow> if has_dir cd then Inl e else Inr None
      | None \<Rightarrow>
          Inr (case iter_archive_files (glob_match L (legacy_pattern cid)) cd of
                 [] \<Rightarrow> None
               | fp # _ \<Rightarrow> Some fp))"

definition wrapper_cid :: "json \<Rightarrow> exn + json" where
  "wrapper_cid wrapper =
     (case py_get wrapper ''metadata'' (JObj []) of
        Inl e \<Rightarrow> Inl e
      | Inr md \<Rightarrow>
          (case py_get md ''id'' JNull of
             Inl e \<Rightarrow> Inl e
           | Inr i \<Rightarrow> if truthy i then Inr i else py_get md ''conversation_id'' JNull))"

fun metadata_scan :: "libs \<Rightarrow> conv_dir \<Rightarrow> string \<Rightarrow> path list \<Rightarrow> exn + path option" where
  "metadata_scan L cd cid [] = Inr None"
| "metadata_scan L cd cid (fp # fps) =
     (case load_wrapper L cd fp of
        None \<Rightarrow> metadata_scan L cd cid fps
      | Some wrapper \<Rightarrow>
          if \<not> truthy wrapper then metadata_scan L cd cid fps
          else (case wrapper_cid wrapper of
                  Inl e \<Rightarrow> Inl e
                | Inr c \<Rightarrow> if c = JStr cid then Inr (Some fp)
                           else metadata_scan L cd cid fps))"

text \<open>The pattern of the scan is the fixed text \<open>conv-*.enc\<close>, which \<open>glob\<close>
  accepts.\<close>

definition find_by_metadata_scan :: "libs \<Rightarrow> conv_dir \<Rightarrow> string \<Rightarrow> exn + path option" where
  "find_by_metadata_scan L cd cid =
     metadata_scan L cd cid (iter_archive_files (glob_match L ''conv-*.enc'') cd)"

definition find_wrapper_path_for_conversation ::
  "libs \<Rightarrow> conv_dir \<Rightarrow> string \<Rightarrow> exn + path option" where
  "find_wrapper_path_for_conversation L cd cid =
     (case find_by_new_token L cd cid of
        Some fp \<Rightarrow> Inr (Some fp)
      | None \<Rightarrow>
          (case find_by_legacy_prefix L cd cid of
             Inl e \<Rightarrow> Inl e
           | Inr (Some fp) \<Rightarrow> Inr (Some fp)
           | Inr None \<Rightarrow> find_by_metadata_scan L cd cid))"

subsection \<open>Public verification API\<close>

definition verify_conversation :: "libs \<Rightarrow> store \<Rightarrow> conv_dir \<Rightarrow> string \<Rightarrow> exn + IntegrityResult" where
  "verify_conversation L st cd cid =
     (if \<not> ensure_key_matches_manifest st then
        Inr \<lparr>conversation_id = cid, state = UNREADABLE, filepath = None, size_bytes = None,
             expected_checksum = JNull, actual_checksum = None,
             error_code = Some ''WRONG_KEY_MANIFEST_MISMATCH''\<rparr>
      else (case find_wrapper_path_for_conversation L cd cid of
             Inl e \<Rightarrow> Inl e
           | Inr None \<Rightarrow>
               Inr \<lparr>conversation_id = cid, state = MISSING, filepath = None, size_bytes = None,
                    expected_checksum = JNull, actual_checksum = None,
                    error_code = Some ''NOT_FOUND''\<rparr>
           | Inr (Some fp) \<Rightarrow>
               (case load_wrapper L cd fp of
                  None \<Rightarrow>
                    Inr \<lparr>conversation_id = cid, state = UNKNOWN, filepath = Some fp,
                         size_bytes = None, expected_checksum = JNull, actual_checksum = None,
                         error_code = Some ''WRAPPER_LOAD_FAIL''\<rparr>
                | Some wrapper \<Rightarrow>
                    if \<not> truthy wrapper then
                      Inr \<lparr>conversation_id = cid, state = UNKNOWN, filepath = Some fp,
                           size_bytes = None, expected_checksum = JNull, actual_checksum = None,
                           error_code = Some ''WRAPPER_LOAD_FAIL''\<rparr>
                    else map_sum (\<lambda>e. e) fst (verify_wrapper L st cd cid fp wrapper False))))"

definition has_valid_conversation :: "libs \<Rightarrow> store \<Rightarrow> conv_dir \<Rightarrow> string \<Rightarrow> exn + bool" where
  "has_valid_conversation L st cd cid =
     map_sum (\<lambda>e. e) (\<lambda>r. state r = VALID) (verify_conversation L st cd cid)"

text \<open>\<open>retrieve_conversation\<close> returns the decoded record, or Python's \<open>None\<close>
  (\<open>JNull\<close>).\<close>

definition retrieve_conversation :: "libs \<Rightarrow> store \<Rightarrow> conv_dir \<Rightarrow> string \<Rightarrow> exn + json" where
  "retrieve_conversation L st cd cid =
     (if \<not> ensure_key_matches_manifest st then Inr JNull
      else (case find_wrapper_path_for_conversation L cd cid of
             Inl e \<Rightarrow> Inl e
           | Inr None \<Rightarrow> Inr JNull
           | Inr (Some fp) \<Rightarrow>
               (case load_wrapper L cd fp of
                  None \<Rightarrow> Inr JNull
                | Some wrapper \<Rightarrow>
                    if \<not> truthy wrapper then Inr JNull
                    else (case verify_wrapper L st cd cid fp wrapper True of
                            Inl e \<Rightarrow> Inl e
                          | Inr (result, content) \<Rightarrow>
                              if state result \<noteq> VALID then Inr JNull else Inr content))))"

subsection \<open>Write path\<close>

text \<open>
  What the world decides during one call of \<open>store_conversation\<close>: the UTC date and
  timestamp \<open>datetime.utcnow()\<close> returns, the entropy \<open>Fernet.encrypt\<close> draws, and
  which system call fails. A write that fails leaves the opened file cut at
  \<open>write_cut\<close> characters.
\<close>

record env =
  today :: string
  now_iso :: string
  entropy :: string
  fault_mkdir :: bool
  fault_open :: bool
  fault_write :: bool
  fault_chmod :: bool
  write_cut :: nat

text \<open>\<open>date_dir.mkdir(parents=True, exist_ok=True)\<close>. A new directory is listed after
  the existing ones.\<close>

definition mkdir_date :: "env \<Rightarrow> conv_dir \<Rightarrow> string \<Rightarrow> exn + conv_dir" where
  "mkdir_date ev cd d =
     (if d \<in> set (entries cd) then
        (case lookup_dir cd d of
           Some dir \<Rightarrow> Inr cd
         | None \<Rightarrow> Inl FileExistsError)
      else if fault_mkdir ev then Inl OSError
      else Inr (cd\<lparr>entries := entries cd @ [d],
                   node_of := (node_of cd)(d \<mapsto> Dir [] Map.empty)\<rparr>))"

definition write_file :: "conv_dir \<Rightarrow> path \<Rightarrow> string \<Rightarrow> conv_dir" where
  "write_file cd p text =
     (case lookup_dir cd (fst p) of
        Some (listed, files) \<Rightarrow>
          cd\<lparr>node_of := (node_of cd)(fst p \<mapsto>
                Dir (if snd p \<in> set listed then listed else listed @ [snd p])
                    (files(snd p \<mapsto> text)))\<rparr>
      | None \<Rightarrow> cd)"

definition store_conv_id :: "json \<Rightarrow> exn + json" where
  "store_conv_id metadata_dict =
     (case py_get metadata_dict ''id'' JNull of
        Inl e \<Rightarrow> Inl e
      | Inr i \<Rightarrow>
          (case (if truthy i then Inr i
                 else py_get metadata_dict ''conversation_id'' (JStr ''unknown'')) of
             Inl e \<Rightarrow> Inl e
           | Inr conv_id \<Rightarrow>
               Inr (if \<not> truthy conv_id \<or> conv_id = JStr ''unknown''
                    then (if truthy conv_id then conv_id else JStr ''unknown'')
                    else conv_id)))"

text \<open>\<open>_file_token\<close> calls \<open>conversation_id.encode()\<close>, which only a string has.\<close>

fun wrapper_name_value :: "libs \<Rightarrow> json \<Rightarrow> exn + string" where
  "wrapper_name_value L (JStr s) = Inr (wrapper_name L s)"
| "wrapper_name_value L _ = Inl AttributeError"

definition stored_obj :: "json \<Rightarrow> string \<Rightarrow> string \<Rightarrow> string \<Rightarrow> json" where
  "stored_obj metadata_dict encrypted_b64 checksum archived_at =
     JObj [(''metadata'', metadata_dict),
           (''encrypted_content'', JStr encrypted_b64),
           (''encryption_version'', JStr ''fernet-v1''),
           (''checksum'', JStr checksum),
           (''archived_at'', JStr archived_at),
           (''version'', JStr ''1.1'')]"

text \<open>The body of the \<open>try\<close> block: the exception it raised, if any, and the directory
  as it left it.\<close>

definition store_try :: "libs \<Rightarrow> store \<Rightarrow> env \<Rightarrow> conv_dir \<Rightarrow> json \<Rightarrow> json \<Rightarrow> exn option \<times> conv_dir" where
  "store_try L st ev cd conversation metadata_dict =
     (case json_dumps L conversation of
        None \<Rightarrow> (Some TypeError, cd)
      | Some conversation_bytes \<Rightarrow>
     (case fernet_encrypt L (encryption_key st) (entropy ev) conversation_bytes of
        None \<Rightarrow> (Some (OtherException ''encrypt''), cd)
      | Some encrypted \<Rightarrow>
     (case mkdir_date ev cd (today ev) of
        Inl e \<Rightarrow> (Some e, cd)
      | Inr cd1 \<Rightarrow>
     (case store_conv_id metadata_dict of
        Inl e \<Rightarrow> (Some e, cd1)
      | Inr conv_id \<Rightarrow>
     (case wrapper_name_value L conv_id of
        Inl e \<Rightarrow> (Some e, cd1)
      | Inr name \<Rightarrow>
          if fault_open ev then (Some OSError, cd1)
          else (case json_dumps L (stored_obj metadata_dict (b64encode L encrypted)
                                     (sha256_hex L conversation_bytes) (now_iso ev)) of
                  None \<Rightarrow> (Some TypeError, write_file cd1 (today ev, name) [])
                | Some text \<Rightarrow>
                    if fault_write ev
                    then (Some OSError, write_file cd1 (today ev, name) (take (write_cut ev) text))
                    else if fault_chmod ev
                    then (Some OSError, write_file cd1 (today ev, name) text)
                    else (None, write_file cd1 (today ev, name) text)))))))"

definition store_conversation :: "libs \<Rightarrow> store \<Rightarrow> env \<Rightarrow> conv_dir \<Rightarrow> json \<Rightarrow> json \<Rightarrow> bool \<times> conv_dir" where
  "store_conversation L st ev cd conversation metadata_dict =
     (case store_try L st ev cd conversation metadata_dict of
        (None, cd') \<Rightarrow> (True, cd')
      | (Some e, cd') \<Rightarrow> (False, cd'))"

subsection \<open>Construction: the manifest binds the archive to the key\<close>

definition manifest_obj :: "string \<Rightarrow> string \<Rightarrow> json" where
  "manifest_obj fingerprint created_at =
     JObj [(''version'', JStr ''1.1''),
           (''created_at'', JStr created_at),
           (''key_fingerprint'', JStr fingerprint)]"

text \<open>\<open>_load_or_init_manifest\<close>, from the text of \<open>ARCHIVE.json\<close> (\<open>None\<close> when the file
  does not exist): the new value of \<open>_key_mismatch\<close> and the manifest file afterwards.
  Every exception inside sets the flag.\<close>

definition load_or_init_manifest :: "libs \<Rightarrow> env \<Rightarrow> string \<Rightarrow> string option \<Rightarrow> bool \<times> string option" where
  "load_or_init_manifest L ev fingerprint manifest =
     (case manifest of
        Some text \<Rightarrow>
          (case json_loads L text of
             None \<Rightarrow> (True, manifest)
           | Some data \<Rightarrow>
               (case py_get data ''key_fingerprint'' JNull of
                  Inl e \<Rightarrow> (True, manifest)
                | Inr fp \<Rightarrow> (truthy fp \<and> fp \<noteq> JStr fingerprint, manifest)))
      | None \<Rightarrow>
          (case json_dumps L (manifest_obj fingerprint (now_iso ev)) of
             None \<Rightarrow> (True, None)
           | Some text \<Rightarrow>
               if fault_open ev then (True, None)
               else if fault_write ev then (True, Some (take (write_cut ev) text))
               else if fault_chmod ev then (True, Some text)
               else (False, Some text)))"

definition new_store :: "libs \<Rightarrow> env \<Rightarrow> string \<Rightarrow> string option \<Rightarrow> store \<times> string option" where
  "new_store L ev key manifest =
     (let fingerprint = take 16 (sha256_hex L key);
          r = load_or_init_manifest L ev fingerprint manifest
      in (\<lparr>encryption_key = key, key_fingerprint = fingerprint, key_mismatch = fst r\<rparr>, snd r))"

subsection \<open>A store in use\<close>

text \<open>The methods a caller can invoke on one store object, in any order. No method
  assigns a field of the object, so the same \<open>store\<close> serves every call.\<close>

datatype op = Store env json json | Verify string | Retrieve string

datatype op_result =
    Stored bool
  | Verified "exn + IntegrityResult"
  | Retrieved "exn + json"

fun run_ops :: "libs \<Rightarrow> store \<Rightarrow> conv_dir \<Rightarrow> op list \<Rightarrow> op_result list \<times> conv_dir" where
  "run_ops L st cd [] = ([], cd)"
| "run_ops L st cd (Store ev conversation metadata_dict # ops) =
     (let r = store_conversation L st ev cd conversation metadata_dict;
          rest = run_ops L st (snd r) ops
      in (Stored (fst r) # fst rest, snd rest))"
| "run_ops L st cd (Verify cid # ops) =
     (let rest = run_ops L st cd ops
      in (Verified (verify_conversation L st cd cid) # fst rest, snd rest))"
| "run_ops L st cd (Retrieve cid # ops) =
     (let rest = run_ops L st cd ops
      in (Retrieved (retrieve_conversation L st cd cid) # fst rest, snd rest))"

text \<open>What a read answers on a store whose key does not match the manifest.\<close>

definition fails_closed :: "op_result \<Rightarrow> bool" where
  "fails_closed r =
     (case r of
        Verified v \<Rightarrow> (\<exists>res. v = Inr res \<and> state res = UNREADABLE \<and> filepath res = None
                          \<and> error_code res = Some ''WRONG_KEY_MANIFEST_MISMATCH'')
      | Retrieved c \<Rightarrow> c = Inr JNull
      | Stored b \<Rightarrow> True)"

section \<open>EncryptionKeyManager\<close>

text \<open>
  Where a key can be kept: the OS credential manager (\<open>keyring_present\<close> says whether
  the \<open>keyring\<close> module was imported, \<open>keyring_entry\<close> is what \<open>get_password\<close>
  returns or the exception it raises, \<open>keyring_writable\<close> whether \<open>set_password\<close>
  succeeds) and the fallback file \<open>~/.chats_archive/.encryption_key\<close>
  (\<open>key_file\<close> is \<open>None\<close> when it does not exist, else what \<open>read_text\<close> returns
  or the exception it raises).
\<close>

record keystore =
  keyring_present :: bool
  keyring_entry :: "exn + string option"
  keyring_writable :: bool
  key_file :: "(exn + string) option"
  key_file_writable :: bool

text \<open>\<open>str.strip()\<close> removes the characters for which \<open>str.isspace\<close> holds. A
  character of the model is a code point below 256; of these, the whitespace ones are
  U+0009 to U+000D, U+001C to U+0020, U+0085 and U+00A0.\<close>

definition is_space :: "char \<Rightarrow> bool" where
  "is_space c = (c \<in> set [CHR 0x09, CHR 0x0A, CHR 0x0B, CHR 0x0C, CHR 0x0D,
                           CHR 0x1C, CHR 0x1D, CHR 0x1E, CHR 0x1F, CHR 0x20,
                           CHR 0x85, CHR 0xA0])"

definition py_strip :: "string \<Rightarrow> string" where
  "py_strip s = rev (dropWhile is_space (rev (dropWhile is_space s)))"

definition store_key_locally :: "keystore \<Rightarrow> string \<Rightarrow> exn + keystore" where
  "store_key_locally ks key =
     (if key_file_writable ks then Inr (ks\<lparr>key_file := Some (Inr key)\<rparr>) else Inl OSError)"

text \<open>The two reads of \<open>get_or_create_key\<close>. \<open>get_password\<close> and \<open>read_text\<close>
  are called outside the \<open>try\<close> blocks, so what they raise leaves the method; what
  the constructor \<open>Fernet\<close> raises is caught and the stored key passed over.\<close>

definition key_from_keyring :: "libs \<Rightarrow> keystore \<Rightarrow> exn + string option" where
  "key_from_keyring L ks =
     (if keyring_present ks then
        (case keyring_entry ks of
           Inl e \<Rightarrow> Inl e
         | Inr (Some stored_key) \<Rightarrow>
             if stored_key \<noteq> [] \<and> fernet_valid_key L stored_key
             then Inr (Some stored_key) else Inr None
         | Inr None \<Rightarrow> Inr None)
      else Inr None)"

definition key_from_file :: "libs \<Rightarrow> keystore \<Rightarrow> exn + string option" where
  "key_from_file L ks =
     (case key_file ks of
        Some (Inl e) \<Rightarrow> Inl e
      | Some (Inr contents) \<Rightarrow>
          if fernet_valid_key L (py_strip contents) then Inr (Some (py_strip contents))
          else Inr None
      | None \<Rightarrow> Inr None)"

definition get_or_create_key :: "libs \<Rightarrow> string \<Rightarrow> keystore \<Rightarrow> exn + (string \<times> keystore)" where
  "get_or_create_key L ent ks =
     (case key_from_keyring L ks of
        Inl e \<Rightarrow> Inl e
      | Inr (Some k) \<Rightarrow> Inr (k, ks)
      | Inr None \<Rightarrow>
     (case key_from_file L ks of
        Inl e \<Rightarrow> Inl e
      | Inr (Some k) \<Rightarrow> Inr (k, ks)
      | Inr None \<Rightarrow>
          (let new_key = fernet_generate_key L ent in
           if keyring_present ks \<and> keyring_writable ks
           then Inr (new_key, ks\<lparr>keyring_entry := Inr (Some new_key)\<rparr>)
           else map_sum (\<lambda>e. e) (\<lambda>ks'. (new_key, ks')) (store_key_locally ks new_key))))"

section \<open>LockFile\<close>

text \<open>
  \<open>backend\<close> is the locking module the constructor found. An \<open>attempt\<close> is what the
  operating system does in one pass of the loop of \<open>acquire\<close>: the handle \<open>open\<close>
  returns and which step raises, an \<open>OSError\<close> or another exception.
\<close>

datatype backend = Fcntl | Msvcrt | NoLocking

datatype fault = NoFault | RaisesOSError | RaisesOther

record LockFile =
  lock_file :: "nat option"
  lock_acquired :: bool
  backend :: backend

record attempt =
  handle :: nat
  open_fault :: fault
  lock_fault :: fault
  chmod_fault :: fault
  clock_ms :: nat

definition new_lock :: "backend \<Rightarrow> LockFile" where
  "new_lock b = \<lparr>lock_file = None, lock_acquired = False, backend = b\<rparr>"

text \<open>\<open>_close_file\<close>: an exception of \<open>close\<close> is swallowed.\<close>

definition close_file :: "LockFile \<Rightarrow> LockFile" where
  "close_file lk = (case lock_file lk of Some h \<Rightarrow> lk\<lparr>lock_file := None\<rparr> | None \<Rightarrow> lk)"

definition try_lock :: "attempt \<Rightarrow> LockFile \<Rightarrow> fault \<times> LockFile" where
  "try_lock a lk =
     (if open_fault a \<noteq> NoFault then (open_fault a, lk)
      else (let lk1 = lk\<lparr>lock_file := Some (handle a)\<rparr> in
            if lock_fault a \<noteq> NoFault then (lock_fault a, lk1)
            else if chmod_fault a \<noteq> NoFault then (chmod_fault a, lk1)
            else (NoFault, lk1\<lparr>lock_acquired := True\<rparr>)))"

text \<open>Time in milliseconds. Each failed pass sleeps 0.1 s, so at pass \<open>i\<close> at least
  \<open>100 * i\<close> ms have gone by.\<close>

definition elapsed_ms :: "(nat \<Rightarrow> attempt) \<Rightarrow> nat \<Rightarrow> int" where
  "elapsed_ms w i = max (int (clock_ms (w i))) (100 * int i)"

function acquire_loop :: "(nat \<Rightarrow> attempt) \<Rightarrow> int \<Rightarrow> nat \<Rightarrow> LockFile \<Rightarrow> bool \<times> LockFile" where
  "acquire_loop w timeout i lk =
     (case try_lock (w i) lk of
        (NoFault, lk') \<Rightarrow> (True, lk')
      | (RaisesOther, lk') \<Rightarrow> (False, close_file lk')
      | (RaisesOSError, lk') \<Rightarrow>
          if timeout \<le> 0 \<or> elapsed_ms w i \<ge> timeout then (False, close_file lk')
          else acquire_loop w timeout (Suc i) (close_file lk'))"
  by pat_completeness auto
termination
  by (relation "measure (\<lambda>(w, timeout, i, lk). nat (timeout - 100 * int i))")
     (auto simp: elapsed_ms_def)

declare acquire_loop.simps [simp del]

definition acquire :: "(nat \<Rightarrow> attempt) \<Rightarrow> int \<Rightarrow> LockFile \<Rightarrow> bool \<times> LockFile" where
  "acquire w timeout lk = acquire_loop w timeout 0 lk"

text \<open>\<open>release\<close>: the unlock call may raise (it does when there is no open file to
  unlock); \<open>except Exception: pass\<close> drops that, and the \<open>finally\<close> block runs either
  way.\<close>

definition unlock_raises :: "bool \<Rightarrow> LockFile \<Rightarrow> bool" where
  "unlock_raises os_raises lk =
     (case backend lk of
        NoLocking \<Rightarrow> False
      | _ \<Rightarrow> os_raises \<or> lock_file lk = None)"

definition release :: "bool \<Rightarrow> LockFile \<Rightarrow> exn + LockFile" where
  "release os_raises lk =
     (if \<not> lock_acquired lk then Inr lk
      else if unlock_raises os_raises lk
      then Inr ((close_file lk)\<lparr>lock_acquired := False\<rparr>)
      else Inr ((close_file lk)\<lparr>lock_acquired := False\<rparr>))"

datatype lock_op = Acquire "nat \<Rightarrow> attempt" int | Release bool

fun run_lock :: "LockFile \<Rightarrow> lock_op list \<Rightarrow> exn + LockFile" where
  "run_lock lk [] = Inr lk"
| "run_lock lk (Acquire w timeout # ops) = run_lock (snd (acquire w timeout lk)) ops"
| "run_lock lk (Release os_raises # ops) =
     (case release os_raises lk of
        Inl e \<Rightarrow> Inl e
      | Inr lk' \<Rightarrow> run_lock lk' ops)"

text \<open>The released state, and what holds of a lock between calls: a lock that is
  not held has no open file.\<close>

definition released :: "LockFile \<Rightarrow> bool" where
  "released lk = (\<not> lock_acquired lk \<and> lock_file lk = None)"

definition lock_inv :: "LockFile \<Rightarrow> bool" where
  "lock_inv lk = (\<not> lock_acquired lk \<longrightarrow> lock_file lk = None)"

section \<open>JobTracker\<close>

text \<open>One row of the table \<open>jobs\<close>; the table is keyed by \<open>job_id\<close>. The column
  \<open>errors\<close> holds a JSON array of strings, read back as a list.\<close>

record job =
  started_at :: string
  completed_at :: "string option"
  total_conversations :: nat
  successful_conversations :: nat
  failed_conversations :: nat
  errors :: "string list"
  status :: string

type_synonym jobs = "string \<rightharpoonup> job"

text \<open>\<open>create_job\<close>: the \<open>INSERT\<close> fails on a \<open>job_id\<close> that is already a key.\<close>

definition create_job :: "jobs \<Rightarrow> string \<Rightarrow> string \<Rightarrow> exn + jobs" where
  "create_job js job_id now =
     (case js job_id of
        Some row \<Rightarrow> Inl (OtherException ''IntegrityError'')
      | None \<Rightarrow>
          Inr (js(job_id \<mapsto> \<lparr>started_at = now, completed_at = None,
                               total_conversations = 0, successful_conversations = 0,
                               failed_conversations = 0, errors = [],
                               status = ''pending''\<rparr>)))"

text \<open>The keyword arguments of \<open>update_job_status\<close> that the orchestrator passes.\<close>

record job_update =
  new_total :: "nat option"
  new_successful :: "nat option"
  new_failed :: "nat option"
  new_errors :: "string list option"

definition no_update :: job_update where
  "no_update = \<lparr>new_total = None, new_successful = None, new_failed = None, new_errors = None\<rparr>"

definition apply_update :: "string \<Rightarrow> job_update \<Rightarrow> string \<Rightarrow> job \<Rightarrow> job" where
  "apply_update new_status u now row =
     row\<lparr>status := new_status,
         total_conversations :=
           (case new_total u of Some n \<Rightarrow> n | None \<Rightarrow> total_conversations row),
         successful_conversations :=
           (case new_successful u of Some n \<Rightarrow> n | None \<Rightarrow> successful_conversations row),
         failed_conversations :=
           (case new_failed u of Some n \<Rightarrow> n | None \<Rightarrow> failed_conversations row),
         errors := (case new_errors u of Some es \<Rightarrow> es | None \<Rightarrow> errors row),
         completed_at :=
           (if new_status = ''completed'' \<or> new_status = ''failed'' then Some now
            else completed_at row)\<rparr>"

text \<open>Each \<open>UPDATE ... WHERE job_id = ?\<close> changes the row of that id, if there is
  one.\<close>

definition update_job_status :: "jobs \<Rightarrow> string \<Rightarrow> string \<Rightarrow> job_update \<Rightarrow> string \<Rightarrow> jobs" where
  "update_job_status js job_id new_status u now =
     (case js job_id of
        None \<Rightarrow> js
      | Some row \<Rightarrow> js(job_id \<mapsto> apply_update new_status u now row))"

definition get_job :: "jobs \<Rightarrow> string \<Rightarrow> job option" where
  "get_job js job_id = js job_id"

section \<open>ArchiveOrchestrator\<close>

datatype APIStatus = API_OK | API_DEPRECATED | API_BLOCKED | API_UNREACHABLE | API_UNKNOWN

fun api_status_value :: "APIStatus \<Rightarrow> string" where
  "api_status_value API_OK = ''ok''"
| "api_status_value API_DEPRECATED = ''deprecated''"
| "api_status_value API_BLOCKED = ''blocked''"
| "api_status_value API_UNREACHABLE = ''unreachable''"
| "api_status_value API_UNKNOWN = ''unknown''"

text \<open>
  What \<open>fetch_conversation_detail\<close> does for one listed conversation: it returns the
  decoded response or \<open>None\<close>, or it raises \<open>PermissionError\<close> or something else.
  \<open>item_world\<close> adds the world of the \<open>store_conversation\<close> call that may follow.
\<close>

datatype fetch_outcome = Detail json | DetailPermissionError string | DetailException string

record item_world =
  detail :: fetch_outcome
  store_env :: env

text \<open>
  The world of one call of \<open>_run_export_locked\<close>: the id \<open>uuid4\<close> would give a new
  job, the clock, the token \<open>retrieve_token\<close> returns, the answers of the remote
  service, and the world of every pass of the loop. \<open>id_text\<close> is \<open>str()\<close> of a
  value, as an f-string formats a slice that is not a string.
\<close>

record run_world =
  fresh_job_id :: string
  clock :: string
  auth_token :: "string option"
  api_status :: APIStatus
  api_message :: string
  token_valid :: bool
  listing :: "exn + json list"
  item :: "nat \<Rightarrow> item_world"
  id_text :: "json \<Rightarrow> string"

text \<open>The counters of the loop, and the conversations directory as the stores so far
  left it. (The counters \<open>detail_401\<close> to \<open>detail_429\<close> only choose what is printed
  and are left out.)\<close>

record progress =
  successful :: nat
  failed :: nat
  error_tags :: "string list"
  detail_failures :: nat
  consecutive_detail_failures :: nat
  archive :: conv_dir

text \<open>\<open>conv_id[:8]\<close> inside an f-string.\<close>

fun id_prefix :: "run_world \<Rightarrow> json \<Rightarrow> exn + string" where
  "id_prefix w (JStr s) = Inr (take 8 s)"
| "id_prefix w (JArr xs) = Inr (id_text w (JArr (take 8 xs)))"
| "id_prefix w _ = Inl TypeError"

fun has_valid_value :: "libs \<Rightarrow> store \<Rightarrow> conv_dir \<Rightarrow> json \<Rightarrow> exn + bool" where
  "has_valid_value L st cd (JStr s) = has_valid_conversation L st cd s"
| "has_valid_value L st cd _ =
     (if \<not> ensure_key_matches_manifest st then Inr False else Inl AttributeError)"

text \<open>The metadata the orchestrator stores: a copy of the listed entry with its
  provenance.\<close>

definition provenance :: "(string \<times> json) list \<Rightarrow> string \<Rightarrow> json" where
  "provenance conv_metadata job_id =
     (let md = dict_set conv_metadata ''source''
                 (case map_of conv_metadata ''source'' of Some v \<Rightarrow> v | None \<Rightarrow> JStr ''fetch'')
      in JObj (dict_set md ''job_id'' (JStr job_id)))"

text \<open>The two \<open>except\<close> clauses of the loop body. Appending the tag can raise in
  turn, and that exception leaves the loop.\<close>

definition on_permission_error :: "run_world \<Rightarrow> json \<Rightarrow> progress \<Rightarrow> exn + progress" where
  "on_permission_error w conv_id p =
     (case id_prefix w conv_id of
        Inl e \<Rightarrow> Inl e
      | Inr pre \<Rightarrow>
          Inr (p\<lparr>failed := failed p + 1,
                 detail_failures := detail_failures p + 1,
                 consecutive_detail_failures := consecutive_detail_failures p + 1,
                 error_tags := error_tags p @ [''auth_failed:'' @ pre]\<rparr>))"

definition on_exception :: "run_world \<Rightarrow> json \<Rightarrow> progress \<Rightarrow> exn + progress" where
  "on_exception w conv_id p =
     (case id_prefix w conv_id of
        Inl e \<Rightarrow> Inl e
      | Inr pre \<Rightarrow>
          Inr (p\<lparr>failed := failed p + 1,
                 detail_failures := detail_failures p + 1,
                 consecutive_detail_failures := consecutive_detail_failures p + 1,
                 error_tags := error_tags p @ [''detail_error:'' @ pre]\<rparr>))"

text \<open>After the \<open>try\<close> statement: the early warning resets the streak.\<close>

definition after_item :: "progress \<Rightarrow> progress" where
  "after_item p =
     (if consecutive_detail_failures p \<ge> 25 then p\<lparr>consecutive_detail_failures := 0\<rparr> else p)"

text \<open>An exception that leaves the loop, with the directory as it is then.\<close>

definition leaving :: "conv_dir \<Rightarrow> exn + progress \<Rightarrow> (exn \<times> conv_dir) + progress" where
  "leaving cd r = (case r of Inl e \<Rightarrow> Inl (e, cd) | Inr p \<Rightarrow> Inr (after_item p))"

text \<open>One pass of the loop, for the listed entry \<open>conv_metadata\<close> at position \<open>i\<close>.
  The skip ends the pass with \<open>continue\<close>, before the early warning.\<close>

definition process_item ::
  "libs \<Rightarrow> store \<Rightarrow> run_world \<Rightarrow> bool \<Rightarrow> string \<Rightarrow> nat \<Rightarrow> json \<Rightarrow> progress
     \<Rightarrow> (exn \<times> conv_dir) + progress" where
  "process_item L st w force_refetch job_id i conv_metadata p =
     (case py_get conv_metadata ''id'' (JStr ''unknown'') of
        Inl e \<Rightarrow> Inl (e, archive p)
      | Inr conv_id \<Rightarrow>
     (case (if \<not> force_refetch \<and> conv_id \<noteq> JStr ''unknown''
            then has_valid_value L st (archive p) conv_id else Inr False) of
        Inl e \<Rightarrow> leaving (archive p) (on_exception w conv_id p)
      | Inr True \<Rightarrow> Inr (p\<lparr>successful := successful p + 1\<rparr>)
      | Inr False \<Rightarrow>
     (case detail (item w i) of
        DetailPermissionError msg \<Rightarrow> leaving (archive p) (on_permission_error w conv_id p)
      | DetailException msg \<Rightarrow> leaving (archive p) (on_exception w conv_id p)
      | Detail full_conv \<Rightarrow>
          if truthy full_conv then
            (let p1 = p\<lparr>consecutive_detail_failures := 0\<rparr>;
                 md = provenance (case conv_metadata of JObj kvs \<Rightarrow> kvs | _ \<Rightarrow> []) job_id;
                 r = store_conversation L st (store_env (item w i)) (archive p1) full_conv md;
                 p2 = p1\<lparr>archive := snd r\<rparr>
             in if fst r then Inr (after_item (p2\<lparr>successful := successful p2 + 1\<rparr>))
                else (case id_prefix w conv_id of
                        Inr pre \<Rightarrow>
                          Inr (after_item (p2\<lparr>failed := failed p2 + 1,
                                 error_tags := error_tags p2 @ [''storage_failed:'' @ pre]\<rparr>))
                      | Inl e \<Rightarrow>
                          leaving (archive p2)
                            (on_exception w conv_id (p2\<lparr>failed := failed p2 + 1\<rparr>))))
          else
            (let p1 = p\<lparr>failed := failed p + 1,
                        detail_failures := detail_failures p + 1,
                        consecutive_detail_failures := consecutive_detail_failures p + 1\<rparr>
             in (case id_prefix w conv_id of
                   Inr pre \<Rightarrow>
                     Inr (after_item (p1\<lparr>error_tags := error_tags p1 @ [''fetch_failed:'' @ pre]\<rparr>))
                 | Inl e \<Rightarrow> leaving (archive p1) (on_exception w conv_id p1))))))"

fun process_items ::
  "libs \<Rightarrow> store \<Rightarrow> run_world \<Rightarrow> bool \<Rightarrow> string \<Rightarrow> nat \<Rightarrow> json list \<Rightarrow> progress
     \<Rightarrow> (exn \<times> conv_dir) + progress" where
  "process_items L st w force_refetch job_id i [] p = Inr p"
| "process_items L st w force_refetch job_id i (conv_metadata # rest) p =
     (case process_item L st w force_refetch job_id i conv_metadata p of
        Inl ec \<Rightarrow> Inl ec
      | Inr p' \<Rightarrow> process_items L st w force_refetch job_id (Suc i) rest p')"

fun exn_text :: "exn \<Rightarrow> string" where
  "exn_text AttributeError = ''object has no attribute''"
| "exn_text TypeError = ''object is not subscriptable''"
| "exn_text (ValueError m) = m"
| "exn_text OSError = ''OSError''"
| "exn_text FileExistsError = ''File exists''"
| "exn_text (RuntimeError m) = m"
| "exn_text (PermissionError m) = m"
| "exn_text (OtherException m) = m"

definition resolve_job :: "run_world \<Rightarrow> jobs \<Rightarrow> string option \<Rightarrow> exn + (string \<times> jobs)" where
  "resolve_job w js resume_job_id =
     (case resume_job_id of
        Some job_id \<Rightarrow>
          if job_id \<noteq> [] then
            (case get_job js job_id of
               None \<Rightarrow> Inl (ValueError (''Job '' @ job_id @ '' not found''))
             | Some row \<Rightarrow> Inr (job_id, js))
          else map_sum (\<lambda>e. e) (\<lambda>js'. (fresh_job_id w, js')) (create_job js (fresh_job_id w) (clock w))
      | None \<Rightarrow>
          map_sum (\<lambda>e. e) (\<lambda>js'. (fresh_job_id w, js')) (create_job js (fresh_job_id w) (clock w)))"

text \<open>From the token to the listing: \<open>Inr (Inl msg)\<close> is the API found unhealthy,
  \<open>Inr (Inr conversations_list)\<close> the listing.\<close>

definition pre_checks :: "run_world \<Rightarrow> exn + (string + json list)" where
  "pre_checks w =
     (case auth_token w of
        None \<Rightarrow> Inl (RuntimeError ''No auth token available'')
      | Some tok \<Rightarrow>
          if tok = [] then Inl (RuntimeError ''No auth token available'')
          else if length tok < 20 then Inl (ValueError ''Invalid auth token format'')
          else if api_status w \<noteq> API_OK
          then Inr (Inl (''API '' @ api_status_value (api_status w) @ '': '' @ api_message w))
          else if \<not> token_valid w then Inl (RuntimeError ''Auth token validation failed'')
          else map_sum (\<lambda>e. e) Inr (listing w))"

definition initial_progress :: "conv_dir \<Rightarrow> progress" where
  "initial_progress cd =
     \<lparr>successful = 0, failed = 0, error_tags = [], detail_failures = 0,
      consecutive_detail_failures = 0, archive = cd\<rparr>"

text \<open>\<open>_run_export_locked\<close>: what it returns or raises, the job table and the
  conversations directory afterwards. The store object is the one the constructor
  builds from the key and the manifest (\<open>new_store\<close>).\<close>

definition run_export_locked ::
  "libs \<Rightarrow> store \<Rightarrow> run_world \<Rightarrow> jobs \<Rightarrow> conv_dir \<Rightarrow> string option \<Rightarrow> bool
     \<Rightarrow> (exn + string) \<times> jobs \<times> conv_dir" where
  "run_export_locked L st w js cd resume_job_id force_refetch =
     (case resolve_job w js resume_job_id of
        Inl e \<Rightarrow> (Inl e, js, cd)
      | Inr (job_id, js1) \<Rightarrow>
          (let js2 = update_job_status js1 job_id ''in_progress'' no_update (clock w);
               fail = (\<lambda>e. update_job_status js2 job_id ''failed''
                               (no_update\<lparr>new_errors := Some [exn_text e]\<rparr>) (clock w))
           in (case pre_checks w of
                 Inl e \<Rightarrow> (Inl e, fail e, cd)
               | Inr (Inl msg) \<Rightarrow>
                   (Inr job_id,
                    update_job_status js2 job_id ''failed''
                      (no_update\<lparr>new_errors := Some [msg]\<rparr>) (clock w),
                    cd)
               | Inr (Inr conversations_list) \<Rightarrow>
                   (case process_items L st w force_refetch job_id 0 conversations_list
                           (initial_progress cd) of
                      Inl (e, cd') \<Rightarrow> (Inl e, fail e, cd')
                    | Inr p \<Rightarrow>
                        (Inr job_id,
                         update_job_status js2 job_id ''completed''
                           \<lparr>new_total = Some (length conversations_list),
                            new_successful = Some (successful p),
                            new_failed = Some (failed p),
                            new_errors = Some (error_tags p)\<rparr> (clock w),
                         archive p)))))"

text \<open>
  A run that an interrupt ends after \<open>k\<close> passes of the loop, before pass \<open>k + 1\<close>:
  \<open>KeyboardInterrupt\<close> is no \<open>Exception\<close>, so neither handler runs and the job row
  stays as \<open>in_progress\<close> left it. The result is the job id, the job table and the
  counters at that moment; \<open>None\<close> when the run does not get that far.
\<close>

definition interrupted_export ::
  "libs \<Rightarrow> store \<Rightarrow> run_world \<Rightarrow> jobs \<Rightarrow> conv_dir \<Rightarrow> string option \<Rightarrow> bool \<Rightarrow> nat
     \<Rightarrow> (string \<times> jobs \<times> progress) option" where
  "interrupted_export L st w js cd resume_job_id force_refetch k =
     (case resolve_job w js resume_job_id of
        Inl e \<Rightarrow> None
      | Inr (job_id, js1) \<Rightarrow>
          (case pre_checks w of
             Inr (Inr conversations_list) \<Rightarrow>
               if k < length conversations_list then
                 (case process_items L st w force_refetch job_id 0 (take k conversations_list)
                         (initial_progress cd) of
                    Inl ec \<Rightarrow> None
                  | Inr p \<Rightarrow>
                      Some (job_id,
                            update_job_status js1 job_id ''in_progress'' no_update (clock w), p))
               else None
           | _ \<Rightarrow> None))"

section \<open>The decision order as the specification words it\<close>


section \<open>An executable instance of the libraries\<close>

text \<open>
  Small stand-ins for the library functions, so that the model runs on concrete
  archives: a digest of 64 hex digits, a cipher that tags the plaintext with the key,
  an encoding of JSON values that a stack machine reads back, and \<open>*\<close>-globbing.
\<close>

definition sim_hex :: "nat \<Rightarrow> char" where
  "sim_hex n = ''0123456789abcdef'' ! (n mod 16)"

definition sim_sha256_hex :: "string \<Rightarrow> string" where
  "sim_sha256_hex x =
     take 64 (concat (map (\<lambda>c. [sim_hex (of_char c div 16), sim_hex (of_char c)]) x)
              @ replicate 64 CHR ''0'')"

definition sim_encrypt :: "string \<Rightarrow> string \<Rightarrow> string \<Rightarrow> string option" where
  "sim_encrypt key ent plaintext = Some (''F:'' @ key @ plaintext)"

definition sim_decrypt :: "string \<Rightarrow> string \<Rightarrow> decrypt_error + string" where
  "sim_decrypt key token =
     (if take (2 + length key) token = ''F:'' @ key then Inr (drop (2 + length key) token)
      else Inl InvalidToken)"

definition sim_valid_key :: "string \<Rightarrow> bool" where
  "sim_valid_key k = (length k = 8)"

definition sim_generate_key :: "string \<Rightarrow> string" where
  "sim_generate_key ent = take 8 (ent @ replicate 8 CHR ''k'')"

fun sim_enc :: "json \<Rightarrow> string" where
  "sim_enc JNull = ''n''"
| "sim_enc (JBool b) = (if b then ''t'' else ''f'')"
| "sim_enc (JNum i) =
     CHR ''i'' # (if 0 \<le> i then replicate (nat i) CHR ''+'' else replicate (nat (- i)) CHR ''-'')"
| "sim_enc (JStr s) = CHR ''s'' # concat (map (\<lambda>c. [CHR ''.'', c]) s)"
| "sim_enc (JArr xs) = CHR ''['' # concat (map (\<lambda>x. sim_enc x @ '','') xs)"
| "sim_enc (JObj kvs) =
     CHR ''{'' # concat (map (\<lambda>kv. (CHR ''s'' # concat (map (\<lambda>c. [CHR ''.'', c]) (fst kv)))
                                     @ sim_enc (snd kv) @ '':'') kvs)"

fun sim_step :: "(bool \<times> json list) option \<Rightarrow> char \<Rightarrow> (bool \<times> json list) option" where
  "sim_step None c = None"
| "sim_step (Some (True, JStr s # stk)) c = Some (False, JStr (s @ [c]) # stk)"
| "sim_step (Some (True, stk)) c = None"
| "sim_step (Some (False, stk)) c =
     (if c = CHR ''n'' then Some (False, JNull # stk)
      else if c = CHR ''t'' then Some (False, JBool True # stk)
      else if c = CHR ''f'' then Some (False, JBool False # stk)
      else if c = CHR ''i'' then Some (False, JNum 0 # stk)
      else if c = CHR ''s'' then Some (False, JStr [] # stk)
      else if c = CHR ''['' then Some (False, JArr [] # stk)
      else if c = CHR ''{'' then Some (False, JObj [] # stk)
      else if c = CHR ''+'' then
        (case stk of JNum i # r \<Rightarrow> Some (False, JNum (i + 1) # r) | _ \<Rightarrow> None)
      else if c = CHR ''-'' then
        (case stk of JNum i # r \<Rightarrow> Some (False, JNum (i - 1) # r) | _ \<Rightarrow> None)
      else if c = CHR ''.'' then
        (case stk of JStr s # r \<Rightarrow> Some (True, stk) | _ \<Rightarrow> None)
      else if c = CHR '','' then
        (case stk of v # JArr xs # r \<Rightarrow> Some (False, JArr (xs @ [v]) # r) | _ \<Rightarrow> None)
      else if c = CHR '':'' then
        (case stk of v # JStr k # JObj kvs # r \<Rightarrow> Some (False, JObj (kvs @ [(k, v)]) # r)
                   | _ \<Rightarrow> None)
      else None)"

definition sim_dec :: "string \<Rightarrow> json option" where
  "sim_dec s =
     (case foldl sim_step (Some (False, [])) s of
        Some (False, [v]) \<Rightarrow> Some v
      | _ \<Rightarrow> None)"

fun sim_glob :: "string \<Rightarrow> string \<Rightarrow> bool" where
  "sim_glob [] s = (s = [])"
| "sim_glob (p # ps) [] = (p = CHR ''*'' \<and> sim_glob ps [])"
| "sim_glob (p # ps) (c # cs) =
     (if p = CHR ''*'' then sim_glob ps (c # cs) \<or> sim_glob (p # ps) cs
      else p = c \<and> sim_glob ps cs)"

text \<open>A pattern is rejected when two stars stand side by side in it.\<close>

fun two_stars :: "string \<Rightarrow> bool" where
  "two_stars (p # q # ps) = ((p = CHR ''*'' \<and> q = CHR ''*'') \<or> two_stars (q # ps))"
| "two_stars _ = False"

definition sim_glob_error :: "string \<Rightarrow> exn option" where
  "sim_glob_error pattern =
     (if two_stars pattern then Some (ValueError ''Invalid pattern'') else None)"

definition sim_libs :: libs where
  "sim_libs =
     \<lparr>sha256_hex = sim_sha256_hex,
      b64encode = (\<lambda>x. x),
      b64decode = Some,
      fernet_encrypt = sim_encrypt,
      fernet_decrypt = sim_decrypt,
      fernet_valid_key = sim_valid_key,
      fernet_generate_key = sim_generate_key,
      json_dumps = (\<lambda>v. Some (sim_enc v)),
      json_loads = sim_dec,
      glob_match = sim_glob,
      glob_error = sim_glob_error\<rparr>"

section \<open>Contracts of the libraries\<close>

text \<open>What the properties below assume of the library functions: a token decrypts,
  under the key that made it, to the plaintext it was made from, and is not empty;
  Base64 decodes what it encoded; \<open>json.loads\<close> reads back what \<open>json.dumps\<close> wrote;
  \<open>json.dumps\<close> and \<open>encrypt\<close> do not raise; a generated key is a valid key.\<close>

definition fernet_ok :: "libs \<Rightarrow> bool" where
  "fernet_ok L = (\<forall>k ent x c. fernet_encrypt L k ent x = Some c \<longrightarrow>
                     c \<noteq> [] \<and> fernet_decrypt L k c = Inr x)"

definition b64_ok :: "libs \<Rightarrow> bool" where
  "b64_ok L = (\<forall>x. b64decode L (b64encode L x) = Some x \<and> (x \<noteq> [] \<longrightarrow> b64encode L x \<noteq> []))"

definition json_ok :: "libs \<Rightarrow> bool" where
  "json_ok L = (\<forall>v s. json_dumps L v = Some s \<longrightarrow> json_loads L s = Some v)"

definition never_raise :: "libs \<Rightarrow> bool" where
  "never_raise L = ((\<forall>v. json_dumps L v \<noteq> None) \<and> (\<forall>k ent x. fernet_encrypt L k ent x \<noteq> None))"

definition keygen_ok :: "libs \<Rightarrow> bool" where
  "keygen_ok L = (\<forall>ent. fernet_valid_key L (fernet_generate_key L ent))"

section \<open>Sample data\<close>

text \<open>A key, a store bound to it, the same store with the manifest of another key,
  an empty conversations directory, a day without faults, and the record of the
  concrete scenario: \<open>{"title": "t", "mapping": {}}\<close> under the id \<open>abc123\<close>.\<close>

definition sample_key :: string where
  "sample_key = ''k1k1k1k1''"

definition sample_store :: store where
  "sample_store =
     \<lparr>encryption_key = sample_key, key_fingerprint = take 16 (sim_sha256_hex sample_key),
      key_mismatch = False\<rparr>"

definition poisoned_store :: store where
  "poisoned_store = sample_store\<lparr>key_mismatch := True\<rparr>"

definition empty_dir :: conv_dir where
  "empty_dir = \<lparr>entries = [], node_of = Map.empty\<rparr>"

definition day :: "string \<Rightarrow> env" where
  "day d =
     \<lparr>today = d, now_iso = d @ ''T00:00:00'', entropy = ''iv'',
      fault_mkdir = False, fault_open = False, fault_write = False, fault_chmod = False,
      write_cut = 0\<rparr>"

definition sample_record :: json where
  "sample_record = JObj [(''title'', JStr ''t''), (''mapping'', JObj [])]"

definition sample_metadata :: json where
  "sample_metadata = JObj [(''id'', JStr ''abc123'')]"

text \<open>A wrapper whose token decrypts under the sample key to \<open>hello\<close>, with the
  given \<open>checksum\<close> field, and a directory holding it as the only file, under the
  name for \<open>abc123\<close>.\<close>

definition sample_wrapper :: "json \<Rightarrow> json" where
  "sample_wrapper checksum =
     JObj [(''encrypted_content'', JStr (''F:'' @ sample_key @ ''hello'')),
           (''checksum'', checksum)]"

definition one_file :: "string \<Rightarrow> string \<Rightarrow> string \<Rightarrow> conv_dir" where
  "one_file d name text =
     \<lparr>entries = [d], node_of = [d \<mapsto> Dir [name] [name \<mapsto> text]]\<rparr>"

definition one_wrapper :: "json \<Rightarrow> conv_dir" where
  "one_wrapper checksum =
     one_file ''2024-01-01'' (wrapper_name sim_libs ''abc123'') (sim_enc (sample_wrapper checksum))"

text \<open>A manifest written for another key, and a credential manager holding a key
  that does not parse.\<close>

definition stale_manifest :: string where
  "stale_manifest = sim_enc (manifest_obj ''stale'' ''2023-12-31T00:00:00'')"

definition bad_keyring :: keystore where
  "bad_keyring =
     \<lparr>keyring_present = True, keyring_entry = Inr (Some ''bad''), keyring_writable = True,
      key_file = None, key_file_writable = True\<rparr>"

section \<open>Conditions on an archive\<close>

text \<open>No date directory other than \<open>d\<close> lists a wrapper file for the id.\<close>

definition only_here :: "libs \<Rightarrow> conv_dir \<Rightarrow> string \<Rightarrow> string \<Rightarrow> bool" where
  "only_here L cd d cid =
     (\<forall>d' \<in> set (entries cd). d' \<noteq> d \<longrightarrow> dir_matches (\<lambda>f. f = wrapper_name L cid) cd d' = [])"

text \<open>One byte of the checksum string changed, and the wrapper with its checksum field
  replaced.\<close>

definition one_byte_changed :: "string \<Rightarrow> string \<Rightarrow> bool" where
  "one_byte_changed old new =
     (\<exists>i < length old. \<exists>c. c \<noteq> old ! i \<and> new = old[i := c])"

fun set_checksum :: "json \<Rightarrow> string \<Rightarrow> json" where
  "set_checksum (JObj kvs) c = JObj (dict_set kvs ''checksum'' (JStr c))"
| "set_checksum w c = w"

text \<open>Editing the checksum of the wrapper file at a path: the file is read, the
  field replaced and the wrapper written back. A file that does not load is left as it
  is.\<close>

definition tamper :: "libs \<Rightarrow> conv_dir \<Rightarrow> path \<Rightarrow> string \<Rightarrow> conv_dir" where
  "tamper L cd fp c =
     (case load_wrapper L cd fp of
        None \<Rightarrow> cd
      | Some w \<Rightarrow>
          (case json_dumps L (set_checksum w c) of
             None \<Rightarrow> cd
           | Some wtext \<Rightarrow> write_file cd fp wtext))"

text \<open>The sample id stored on two days, an older record first; and the checksum of
  the sample record with its first character replaced.\<close>

definition old_record :: json where
  "old_record = JObj [(''title'', JStr ''old'')]"

definition stored_once :: conv_dir where
  "stored_once =
     snd (store_conversation sim_libs sample_store (day ''2024-01-01'') empty_dir
            old_record sample_metadata)"

definition stored_twice :: conv_dir where
  "stored_twice =
     snd (store_conversation sim_libs sample_store (day ''2024-01-02'') stored_once
            sample_record sample_metadata)"

definition flipped :: string where
  "flipped = (sim_sha256_hex (sim_enc sample_record))[0 := CHR ''g'']"

text \<open>
  A wrapper that verifies under the store's key and sits under the name of the id in its
  metadata, as every wrapper written by \<open>store_conversation\<close> does; and an archive
  in which every listed file of every date directory is such a wrapper.
\<close>

definition sound_wrapper :: "libs \<Rightarrow> store \<Rightarrow> string \<Rightarrow> json \<Rightarrow> bool" where
  "sound_wrapper L st name w =
     (truthy w
      \<and> (case decrypt_bytes L st w of
            Inr (Some b, err) \<Rightarrow>
              (case py_get w ''checksum'' JNull of
                 Inr c \<Rightarrow> \<not> (truthy c \<and> JStr (sha256_hex L b) \<noteq> c)
               | Inl e \<Rightarrow> False)
          | _ \<Rightarrow> False)
      \<and> (case wrapper_cid w of
            Inr (JStr cid) \<Rightarrow> cid = [] \<or> name = wrapper_name L cid
          | Inr c \<Rightarrow> True
          | Inl e \<Rightarrow> False))"

definition archive_ok :: "libs \<Rightarrow> store \<Rightarrow> conv_dir \<Rightarrow> bool" where
  "archive_ok L st cd =
     (\<forall>d \<in> set (entries cd). \<forall>listed files. lookup_dir cd d = Some (listed, files) \<longrightarrow>
        (\<forall>n \<in> set listed. \<exists>wtext w. files n = Some wtext \<and> json_loads L wtext = Some w
                                      \<and> sound_wrapper L st n w))"

text \<open>The paths and the file names the date directories list, and whether one of the
  names answers the lookup of an id by its token or, when \<open>glob\<close> accepts the
  legacy pattern of the id, by that pattern.\<close>

definition listed_paths :: "conv_dir \<Rightarrow> path set" where
  "listed_paths cd =
     {(d, n). d \<in> set (entries cd)
              \<and> (\<exists>listed files. lookup_dir cd d = Some (listed, files) \<and> n \<in> set listed)}"

definition names :: "conv_dir \<Rightarrow> string set" where
  "names cd = snd ` listed_paths cd"

definition reachable :: "libs \<Rightarrow> conv_dir \<Rightarrow> string \<Rightarrow> bool" where
  "reachable L cd cid =
     (\<exists>n \<in> names cd. n = wrapper_name L cid
                       \<or> (glob_error L (legacy_pattern cid) = None
                           \<and> glob_match L (legacy_pattern cid) n))"

text \<open>A listing of identifiable conversations: every entry is an object whose \<open>id\<close>
  is a non-empty string other than \<open>unknown\<close>.\<close>

definition listed_id :: "json \<Rightarrow> string option" where
  "listed_id conv_metadata =
     (case conv_metadata of
        JObj kvs \<Rightarrow>
          (case map_of kvs ''id'' of
             Some (JStr s) \<Rightarrow> if s \<noteq> [] \<and> s \<noteq> ''unknown'' then Some s else None
           | _ \<Rightarrow> None)
      | _ \<Rightarrow> None)"

definition listing_ok :: "json list \<Rightarrow> bool" where
  "listing_ok conversations_list = (\<forall>m \<in> set conversations_list. listed_id m \<noteq> None)"

text \<open>A run in which no wrapper write is cut short, and a run that passes the checks
  before the loop and lists the given conversations.\<close>

definition writes_complete :: "run_world \<Rightarrow> bool" where
  "writes_complete w = (\<forall>i. \<not> fault_write (store_env (item w i)))"

definition healthy :: "run_world \<Rightarrow> json list \<Rightarrow> bool" where
  "healthy w conversations_list =
     (\<exists>tok. auth_token w = Some tok \<and> 20 \<le> length tok \<and> api_status w = API_OK
             \<and> token_valid w \<and> listing w = Inr conversations_list)"

text \<open>How many of the listed conversations the lookup can reach in an archive.\<close>

definition count_reachable :: "libs \<Rightarrow> conv_dir \<Rightarrow> json list \<Rightarrow> nat" where
  "count_reachable L cd conversations_list =
     length (filter (\<lambda>m. case listed_id m of Some s \<Rightarrow> reachable L cd s | None \<Rightarrow> False)
               conversations_list)"

text \<open>
  Two listed conversations and two worlds for a run over them: one in which every
  detail fetch returns the sample record, one in which every detail fetch returns
  \<open>None\<close>. \<open>first_run\<close> is a new export in the first world, interrupted after one
  item; \<open>resumed_run\<close> resumes its job in the second world.
\<close>

definition sample_listing :: "json list" where
  "sample_listing = [JObj [(''id'', JStr ''abc123'')], JObj [(''id'', JStr ''def456'')]]"

definition world_up :: run_world where
  "world_up =
     \<lparr>fresh_job_id = ''job00001'', clock = ''2024-01-02T00:00:00'',
      auth_token = Some ''token-of-twenty-chars'', api_status = API_OK,
      api_message = ''API responding normally'', token_valid = True,
      listing = Inr sample_listing,
      item = (\<lambda>i. \<lparr>detail = Detail sample_record, store_env = day ''2024-01-02''\<rparr>),
      id_text = (\<lambda>v. [])\<rparr>"

definition world_down :: run_world where
  "world_down =
     world_up\<lparr>fresh_job_id := ''job00002'',
              item := (\<lambda>i. \<lparr>detail = Detail JNull, store_env = day ''2024-01-02''\<rparr>)\<rparr>"

definition first_run :: "store \<Rightarrow> (string \<times> jobs \<times> progress) option" where
  "first_run st = interrupted_export sim_libs st world_up Map.empty empty_dir None False 1"

definition resumed_run :: "store \<Rightarrow> ((exn + string) \<times> jobs \<times> conv_dir) option" where
  "resumed_run st =
     (case first_run st of
        None \<Rightarrow> None
      | Some (job_id, js1, p1) \<Rightarrow>
          Some (run_export_locked sim_libs st world_down js1 (archive p1) (Some job_id) False))"

text \<open>Projections, to state outcomes: the state and error code of a verification,
  the checksum a wrapper file holds, the key a call returned and the entry it left, the
  successes counted when a run was interrupted, and the row of a job after a run.\<close>

definition outcome :: "exn + IntegrityResult \<Rightarrow> exn + (IntegrityState \<times> string option)" where
  "outcome r = map_sum id (\<lambda>res. (state res, error_code res)) r"

definition verified ::
  "libs \<Rightarrow> store \<Rightarrow> conv_dir \<Rightarrow> string \<Rightarrow> exn + (IntegrityState \<times> string option)" where
  "verified L st cd cid = outcome (verify_conversation L st cd cid)"

definition verified_state :: "libs \<Rightarrow> store \<Rightarrow> conv_dir \<Rightarrow> string \<Rightarrow> exn + IntegrityState" where
  "verified_state L st cd cid = map_sum id state (verify_conversation L st cd cid)"

definition stored_checksum :: "libs \<Rightarrow> conv_dir \<Rightarrow> path \<Rightarrow> json option" where
  "stored_checksum L cd fp =
     (case load_wrapper L cd fp of
        None \<Rightarrow> None
      | Some w \<Rightarrow> (case py_get w ''checksum'' JNull of Inr c \<Rightarrow> Some c | Inl e \<Rightarrow> None))"

definition returned_key :: "exn + (string \<times> keystore) \<Rightarrow> exn + string" where
  "returned_key r = map_sum id fst r"

definition key_and_entry ::
  "exn + (string \<times> keystore) \<Rightarrow> exn + (string \<times> (exn + string option))" where
  "key_and_entry r = map_sum id (\<lambda>x. (fst x, keyring_entry (snd x))) r"

definition counted :: "(string \<times> jobs \<times> progress) option \<Rightarrow> (string \<times> nat) option" where
  "counted r = map_option (\<lambda>x. (fst x, successful (snd (snd x)))) r"

definition job_row ::
  "((exn + string) \<times> jobs \<times> conv_dir) option \<Rightarrow> string \<Rightarrow> (string \<times> nat \<times> nat \<times> nat) option" where
  "job_row r job_id =
     (case r of
        None \<Rightarrow> None
      | Some x \<Rightarrow>
          map_option (\<lambda>row. (status row, total_conversations row,
                              successful_conversations row, failed_conversations row))
            (fst (snd x) job_id))"

section \<open>The instance meets the contracts\<close>

lemma sim_run_plus:
  "foldl sim_step (Some (False, JNum i # stk)) (replicate n CHR ''+'')
     = Some (False, JNum (i + int n) # stk)"
  by (induction n arbitrary: i) (simp_all add: algebra_simps)

lemma sim_run_minus:
  "foldl sim_step (Some (False, JNum i # stk)) (replicate n CHR ''-'')
     = Some (False, JNum (i - int n) # stk)"
  by (induction n arbitrary: i) (simp_all add: algebra_simps)

lemma sim_run_chars:
  "foldl sim_step (Some (False, JStr a # stk)) (concat (map (\<lambda>c. [CHR ''.'', c]) s))
     = Some (False, JStr (a @ s) # stk)"
  by (induction s arbitrary: a) simp_all

lemma sim_run_items:
  assumes "\<And>x stk. x \<in> set xs \<Longrightarrow>
             foldl sim_step (Some (False, stk)) (sim_enc x) = Some (False, x # stk)"
  shows "foldl sim_step (Some (False, JArr a # stk)) (concat (map (\<lambda>x. sim_enc x @ '','') xs))
           = Some (False, JArr (a @ xs) # stk)"
  using assms by (induction xs arbitrary: a) simp_all

lemma sim_run_fields:
  assumes "\<And>k v stk. (k, v) \<in> set kvs \<Longrightarrow>
             foldl sim_step (Some (False, stk)) (sim_enc v) = Some (False, v # stk)"
  shows "foldl sim_step (Some (False, JObj a # stk))
           (concat (map (\<lambda>kv. (CHR ''s'' # concat (map (\<lambda>c. [CHR ''.'', c]) (fst kv)))
                               @ sim_enc (snd kv) @ '':'') kvs))
           = Some (False, JObj (a @ kvs) # stk)"
  using assms
proof (induction kvs arbitrary: a)
  case Nil
  then show ?case by simp
next
  case (Cons kv kvs)
  obtain k v where kv: "kv = (k, v)" by (cases kv)
  have v: "\<And>stk. foldl sim_step (Some (False, stk)) (sim_enc v) = Some (False, v # stk)"
    using Cons.prems[of k v] kv by simp
  have rest: "foldl sim_step (Some (False, JObj (a @ [kv]) # stk))
      (concat (map (\<lambda>kv. (CHR ''s'' # concat (map (\<lambda>c. [CHR ''.'', c]) (fst kv)))
                          @ sim_enc (snd kv) @ '':'') kvs))
     = Some (False, JObj ((a @ [kv]) @ kvs) # stk)"
    by (rule Cons.IH) (use Cons.prems in auto)
  show ?case using rest by (simp add: kv sim_run_chars v)
qed

lemma sim_run_enc: "foldl sim_step (Some (False, stk)) (sim_enc v) = Some (False, v # stk)"
proof (induction v arbitrary: stk)
  case (JNum i)
  show ?case by (simp add: sim_run_plus sim_run_minus)
next
  case (JStr s)
  show ?case by (simp add: sim_run_chars)
next
  case (JArr xs)
  show ?case using sim_run_items[of xs "[]" stk] JArr by simp
next
  case (JObj kvs)
  have "\<And>k v stk. (k, v) \<in> set kvs \<Longrightarrow>
          foldl sim_step (Some (False, stk)) (sim_enc v) = Some (False, v # stk)"
    using JObj by fastforce
  from sim_run_fields[OF this] show ?case by simp
qed simp_all

lemma sim_dec_enc [simp]: "sim_dec (sim_enc v) = Some v"
  by (simp add: sim_dec_def sim_run_enc)

lemma sim_fernet_ok: "fernet_ok sim_libs"
  by (simp add: fernet_ok_def sim_libs_def sim_encrypt_def sim_decrypt_def)

lemma sim_b64_ok: "b64_ok sim_libs"
  by (simp add: b64_ok_def sim_libs_def)

lemma sim_json_ok: "json_ok sim_libs"
  by (auto simp: json_ok_def sim_libs_def)

lemma sim_never_raise: "never_raise sim_libs"
  by (simp add: never_raise_def sim_libs_def sim_encrypt_def)

lemma sim_keygen_ok: "keygen_ok sim_libs"
  by (simp add: keygen_ok_def sim_libs_def sim_valid_key_def sim_generate_key_def min_def)

lemma projections [simp]:
  "verified L st cd cid
     = map_sum id (\<lambda>res. (state res, error_code res)) (verify_conversation L st cd cid)"
  "verified_state L st cd cid = map_sum id state (verify_conversation L st cd cid)"
  "returned_key r = map_sum id fst r"
  by (simp_all add: verified_def verified_state_def outcome_def returned_key_def)

lemma sim_libs_sel [simp]:
  "sha256_hex sim_libs = sim_sha256_hex"
  "b64encode sim_libs = (\<lambda>x. x)"
  "b64decode sim_libs = Some"
  "fernet_encrypt sim_libs = sim_encrypt"
  "fernet_decrypt sim_libs = sim_decrypt"
  "fernet_valid_key sim_libs = sim_valid_key"
  "fernet_generate_key sim_libs = sim_generate_key"
  "json_dumps sim_libs = (\<lambda>v. Some (sim_enc v))"
  "json_loads sim_libs = sim_dec"
  "glob_match sim_libs = sim_glob"
  "glob_error sim_libs = sim_glob_error"
  by (simp_all add: sim_libs_def)

lemma sim_sha_length [simp]: "length (sim_sha256_hex x) = 64"
  by (simp add: sim_sha256_hex_def min_def)

lemma sim_sha_nonempty [simp]: "sim_sha256_hex x \<noteq> []" "[] \<noteq> sim_sha256_hex x"
  using sim_sha_length[of x] by (metis length_0_conv zero_neq_numeral)+

lemma find_one_file:
  "find_wrapper_path_for_conversation L (one_file d (wrapper_name L cid) text) cid
     = Inr (Some (d, wrapper_name L cid))"
  by (simp add: find_wrapper_path_for_conversation_def find_by_new_token_def
        iter_archive_files_def dir_matches_def lookup_dir_def one_file_def)

lemma read_one_file: "read_file (one_file d name text) (d, name) = Some text"
  by (simp add: read_file_def lookup_dir_def one_file_def)

lemma load_one_wrapper:
  "load_wrapper sim_libs (one_wrapper c) (''2024-01-01'', wrapper_name sim_libs ''abc123'')
     = Some (sample_wrapper c)"
  by (simp add: load_wrapper_def one_wrapper_def read_one_file)

lemma find_one_wrapper:
  "find_wrapper_path_for_conversation sim_libs (one_wrapper c) ''abc123''
     = Inr (Some (''2024-01-01'', wrapper_name sim_libs ''abc123''))"
  unfolding one_wrapper_def by (rule find_one_file)

lemma sample_wrapper_simps [simp]:
  "py_get (sample_wrapper c) ''checksum'' JNull = Inr c"
  "truthy (sample_wrapper c)"
  "decrypt_bytes sim_libs sample_store (sample_wrapper c) = Inr (Some ''hello'', None)"
  by (simp_all add: sample_wrapper_def decrypt_bytes_def sim_decrypt_def sample_store_def
        sample_key_def)

section \<open>The verification state machine\<close>


lemma decrypt_bytes_dict:
  "decrypt_bytes L st w = Inr r \<Longrightarrow> \<exists>kvs. w = JObj kvs"
  by (cases w) (auto simp: decrypt_bytes_def)




text \<open>
  C9: a wrapper whose content decrypts under the store's key and whose checksum field is
  absent, null or the empty string verifies as \<open>VALID\<close> with no error code; no
  call of \<open>_verify_wrapper\<close> reports it \<open>CORRUPT\<close>; and \<open>verify_conversation\<close>
  returns that result when the lookup finds its file on a store whose key matches.
\<close>

theorem missing_checksum_never_corrupt:
  assumes dec: "decrypt_bytes L st (JObj kvs) = Inr (Some plaintext, err)"
      and chk: "map_of kvs ''checksum'' \<in> {None, Some JNull, Some (JStr [])}"
  shows "(\<exists>r. verify_wrapper L st cd cid fp (JObj kvs) False = Inr (r, JNull)
             \<and> state r = VALID \<and> error_code r = None)
       \<and> (\<forall>rc r c. verify_wrapper L st cd cid fp (JObj kvs) rc = Inr (r, c) \<longrightarrow> state r \<noteq> CORRUPT)
       \<and> (\<not> key_mismatch st \<and> find_wrapper_path_for_conversation L cd cid = Inr (Some fp)
             \<and> load_wrapper L cd fp = Some (JObj kvs)
           \<longrightarrow> (\<exists>r. verify_conversation L st cd cid = Inr r
                    \<and> state r = VALID \<and> error_code r = None))"
proof (intro conjI)
  show v: "\<exists>r. verify_wrapper L st cd cid fp (JObj kvs) False = Inr (r, JNull)
             \<and> state r = VALID \<and> error_code r = None"
    using chk dec by (auto simp: verify_wrapper_def Let_def)
  show "\<forall>rc r c. verify_wrapper L st cd cid fp (JObj kvs) rc = Inr (r, c) \<longrightarrow> state r \<noteq> CORRUPT"
    using chk dec by (auto simp: verify_wrapper_def Let_def split: option.splits if_splits)
  have ne: "kvs \<noteq> []"
    using dec by (auto simp: decrypt_bytes_def)
  show "\<not> key_mismatch st \<and> find_wrapper_path_for_conversation L cd cid = Inr (Some fp)
             \<and> load_wrapper L cd fp = Some (JObj kvs)
           \<longrightarrow> (\<exists>r. verify_conversation L st cd cid = Inr r
                    \<and> state r = VALID \<and> error_code r = None)"
    using v ne by (auto simp: verify_conversation_def ensure_key_matches_manifest_def)
qed

theorem missing_checksum_never_corrupt_witness:
  "decrypt_bytes sim_libs sample_store (sample_wrapper JNull) = Inr (Some ''hello'', None)
   \<and> (verified sim_libs sample_store (one_wrapper JNull) ''abc123'')
       = Inr (VALID, None)"
proof -
  have dec: "decrypt_bytes sim_libs sample_store
               (JObj [(''encrypted_content'', JStr (''F:'' @ sample_key @ ''hello'')),
                      (''checksum'', JNull)]) = Inr (Some ''hello'', None)"
    using sample_wrapper_simps(3)[of JNull] by (simp add: sample_wrapper_def)
  have chk: "map_of [(''encrypted_content'', JStr (''F:'' @ sample_key @ ''hello'')),
                     (''checksum'', JNull)] ''checksum'' \<in> {None, Some JNull, Some (JStr [])}"
    by simp
  have ok: "\<not> key_mismatch sample_store"
    by (simp add: sample_store_def)
  from missing_checksum_never_corrupt[OF dec chk, of "one_wrapper JNull" "''abc123''"
      "(''2024-01-01'', wrapper_name sim_libs ''abc123'')"]
  show ?thesis
    using ok dec find_one_wrapper[of JNull] load_one_wrapper[of JNull]
    by (auto simp: sample_wrapper_def)
qed

section \<open>The poisoned state\<close>

lemma new_store_key_mismatch:
  assumes "json_loads L text = Some (JObj m)"
      and "map_of m ''key_fingerprint'' = Some (JStr f)"
      and "f \<noteq> []" and "f \<noteq> take 16 (sha256_hex L key)"
  shows "key_mismatch (fst (new_store L ev key (Some text)))"
  using assms by (simp add: new_store_def load_or_init_manifest_def Let_def)

lemma poisoned_verify:
  "key_mismatch st \<Longrightarrow>
     verify_conversation L st cd cid
       = Inr \<lparr>conversation_id = cid, state = UNREADABLE, filepath = None, size_bytes = None,
              expected_checksum = JNull, actual_checksum = None,
              error_code = Some ''WRONG_KEY_MANIFEST_MISMATCH''\<rparr>"
  by (simp add: verify_conversation_def ensure_key_matches_manifest_def)

lemma poisoned_retrieve:
  "key_mismatch st \<Longrightarrow> retrieve_conversation L st cd cid = Inr JNull"
  by (simp add: retrieve_conversation_def ensure_key_matches_manifest_def)

lemma poisoned_run_ops:
  "key_mismatch st \<Longrightarrow> \<forall>r \<in> set (fst (run_ops L st cd ops)). fails_closed r"
proof (induction ops arbitrary: cd)
  case Nil
  then show ?case by simp
next
  case (Cons o1 ops)
  then show ?case
    by (cases o1) (simp_all add: Let_def fails_closed_def poisoned_verify poisoned_retrieve)
qed

text \<open>
  C2: on a store in the key-mismatch state, \<open>verify\<close> answers \<open>UNREADABLE\<close> with
  \<open>WRONG_KEY_MANIFEST_MISMATCH\<close> for every id, whatever the directory holds (the
  answer does not mention the directory), \<open>retrieve\<close> answers \<open>None\<close>, and so does
  every read in any sequence of calls on that store.
\<close>

theorem poisoned_store_fails_closed:
  assumes "key_mismatch st"
  shows "verify_conversation L st cd cid
           = Inr \<lparr>conversation_id = cid, state = UNREADABLE, filepath = None, size_bytes = None,
                  expected_checksum = JNull, actual_checksum = None,
                  error_code = Some ''WRONG_KEY_MANIFEST_MISMATCH''\<rparr>
       \<and> retrieve_conversation L st cd cid = Inr JNull
       \<and> (\<forall>r \<in> set (fst (run_ops L st cd ops)). fails_closed r)"
  using assms by (simp add: poisoned_verify poisoned_retrieve poisoned_run_ops)

lemma stale_store_poisoned: "key_mismatch (fst (new_store sim_libs (day ''2024-01-02'') sample_key (Some stale_manifest)))"
proof (rule new_store_key_mismatch)
  show "json_loads sim_libs stale_manifest = Some (JObj [(''version'', JStr ''1.1''),
           (''created_at'', JStr ''2023-12-31T00:00:00''), (''key_fingerprint'', JStr ''stale'')])"
    by (simp add: stale_manifest_def manifest_obj_def del: sim_enc.simps)
  show "map_of [(''version'', JStr ''1.1''),
           (''created_at'', JStr ''2023-12-31T00:00:00''), (''key_fingerprint'', JStr ''stale'')] ''key_fingerprint'' = Some (JStr ''stale'')"
    by simp
  show "''stale'' \<noteq> []" by simp
  show "''stale'' \<noteq> take 16 (sha256_hex sim_libs sample_key)"
  proof
    assume "''stale'' = take 16 (sha256_hex sim_libs sample_key)"
    then have "length ''stale'' = length (take 16 (sha256_hex sim_libs sample_key))" by simp
    then show False by simp
  qed
qed

theorem poisoned_store_fails_closed_witness:
  "key_mismatch (fst (new_store sim_libs (day ''2024-01-02'') sample_key (Some stale_manifest)))
   \<and> (verified sim_libs
           (fst (new_store sim_libs (day ''2024-01-02'') sample_key (Some stale_manifest)))
           (one_wrapper JNull) ''abc123'')
       = Inr (UNREADABLE, Some ''WRONG_KEY_MANIFEST_MISMATCH'')
   \<and> retrieve_conversation sim_libs
        (fst (new_store sim_libs (day ''2024-01-02'') sample_key (Some stale_manifest)))
        (one_wrapper JNull) ''abc123'' = Inr JNull"
  using poisoned_store_fails_closed[OF stale_store_poisoned, of sim_libs "one_wrapper JNull" "''abc123''" "[]"]
    stale_store_poisoned
  by simp



lemma mkdir_date_dir:
  "mkdir_date ev cd d = Inr cd1 \<Longrightarrow> \<exists>dir. lookup_dir cd1 d = Some dir"
  by (auto simp: mkdir_date_def lookup_dir_def split: option.splits node.splits if_splits)


lemma store_try_success:
  assumes "store_try L st ev cd conversation metadata_dict = (None, cd')"
  shows "\<exists>b c cd1 conv_id name text.
           json_dumps L conversation = Some b
         \<and> fernet_encrypt L (encryption_key st) (entropy ev) b = Some c
         \<and> mkdir_date ev cd (today ev) = Inr cd1
         \<and> store_conv_id metadata_dict = Inr conv_id
         \<and> wrapper_name_value L conv_id = Inr name
         \<and> json_dumps L (stored_obj metadata_dict (b64encode L c) (sha256_hex L b) (now_iso ev))
             = Some text
         \<and> \<not> fault_open ev \<and> \<not> fault_write ev \<and> \<not> fault_chmod ev
         \<and> cd' = write_file cd1 (today ev, name) text"
  using assms
  by (auto simp: store_try_def split: option.splits sum.splits if_splits)





section \<open>The key manager\<close>

lemma key_from_keyring_valid:
  "key_from_keyring L ks = Inr (Some k) \<Longrightarrow> fernet_valid_key L k"
  by (auto simp: key_from_keyring_def split: if_splits option.splits sum.splits)

lemma key_from_file_valid: "key_from_file L ks = Inr (Some k) \<Longrightarrow> fernet_valid_key L k"
  by (auto simp: key_from_file_def split: if_splits option.splits sum.splits)

lemma key_from_keyring_invalid:
  "keyring_entry ks = Inr (Some s) \<Longrightarrow> \<not> fernet_valid_key L s \<Longrightarrow>
     key_from_keyring L ks = key_from_keyring L (ks\<lparr>keyring_entry := Inr None\<rparr>)"
  by (simp add: key_from_keyring_def)

lemma key_from_file_invalid:
  "key_file ks = Some (Inr t) \<Longrightarrow> \<not> fernet_valid_key L (py_strip t) \<Longrightarrow>
     key_from_file L ks = key_from_file L (ks\<lparr>key_file := None\<rparr>)"
  by (simp add: key_from_file_def)

text \<open>\<open>strip\<close> removes the no-break space and the next-line character with the
  other whitespace, and nothing from inside the text.\<close>

lemma py_strip_padding:
  "py_strip ([CHR 0xA0, CHR 0x85, CHR 0x20] @ ''k 1'' @ [CHR 0x0A, CHR 0x85, CHR 0xA0]) = ''k 1''"
  by (simp add: py_strip_def is_space_def)

text \<open>
  C5, as the code has it: every key \<open>get_or_create_key\<close> returns parses as a valid
  key; a stored key that does not parse is treated as absent, in the credential manager
  and in the fallback file alike; when no stored key parses, the key returned is a
  newly generated one, written to the credential manager or to the fallback file, where
  it replaces what was stored; a stored key that parses is returned and nothing is
  written; and when no stored key parses and one of the two places can be written, the
  call does return the generated key.
\<close>

theorem get_or_create_key_valid:
  assumes gen: "keygen_ok L"
  shows "(\<forall>k ks'. get_or_create_key L ent ks = Inr (k, ks') \<longrightarrow> fernet_valid_key L k)
       \<and> (\<forall>s. keyring_entry ks = Inr (Some s) \<and> \<not> fernet_valid_key L s \<longrightarrow>
             returned_key (get_or_create_key L ent ks)
               = returned_key (get_or_create_key L ent (ks\<lparr>keyring_entry := Inr None\<rparr>)))
       \<and> (\<forall>t. key_file ks = Some (Inr t) \<and> \<not> fernet_valid_key L (py_strip t) \<longrightarrow>
             returned_key (get_or_create_key L ent ks)
               = returned_key (get_or_create_key L ent (ks\<lparr>key_file := None\<rparr>)))
       \<and> (\<forall>k ks'. key_from_keyring L ks = Inr None \<and> key_from_file L ks = Inr None
             \<and> get_or_create_key L ent ks = Inr (k, ks') \<longrightarrow>
             k = fernet_generate_key L ent
             \<and> (if keyring_present ks \<and> keyring_writable ks
                 then keyring_entry ks' = Inr (Some k) else key_file ks' = Some (Inr k)))
       \<and> (\<forall>k. key_from_keyring L ks = Inr (Some k)
                \<or> (key_from_keyring L ks = Inr None \<and> key_from_file L ks = Inr (Some k))
              \<longrightarrow> get_or_create_key L ent ks = Inr (k, ks))
       \<and> (key_from_keyring L ks = Inr None \<and> key_from_file L ks = Inr None
            \<and> ((keyring_present ks \<and> keyring_writable ks) \<or> key_file_writable ks)
              \<longrightarrow> (\<exists>ks'. get_or_create_key L ent ks = Inr (fernet_generate_key L ent, ks')))"
proof -
  have c1: "\<forall>k ks'. get_or_create_key L ent ks = Inr (k, ks') \<longrightarrow> fernet_valid_key L k"
    using gen key_from_keyring_valid[of L ks] key_from_file_valid[of L ks]
    by (auto simp: get_or_create_key_def keygen_ok_def Let_def store_key_locally_def
             split: option.splits if_splits sum.splits)
  have c2: "\<forall>s. keyring_entry ks = Inr (Some s) \<and> \<not> fernet_valid_key L s \<longrightarrow>
             returned_key (get_or_create_key L ent ks)
               = returned_key (get_or_create_key L ent (ks\<lparr>keyring_entry := Inr None\<rparr>))"
    by (auto simp: get_or_create_key_def key_from_keyring_def key_from_file_def Let_def
          store_key_locally_def split: option.splits sum.splits)
  have c3: "\<forall>t. key_file ks = Some (Inr t) \<and> \<not> fernet_valid_key L (py_strip t) \<longrightarrow>
             returned_key (get_or_create_key L ent ks)
               = returned_key (get_or_create_key L ent (ks\<lparr>key_file := None\<rparr>))"
    by (auto simp: get_or_create_key_def key_from_keyring_def key_from_file_def Let_def
          store_key_locally_def split: option.splits sum.splits)
  have c4: "\<forall>k ks'. key_from_keyring L ks = Inr None \<and> key_from_file L ks = Inr None
             \<and> get_or_create_key L ent ks = Inr (k, ks') \<longrightarrow>
             k = fernet_generate_key L ent
             \<and> (if keyring_present ks \<and> keyring_writable ks
                 then keyring_entry ks' = Inr (Some k) else key_file ks' = Some (Inr k))"
    by (auto simp: get_or_create_key_def Let_def store_key_locally_def split: if_splits)
  have c5: "\<forall>k. key_from_keyring L ks = Inr (Some k)
                \<or> (key_from_keyring L ks = Inr None \<and> key_from_file L ks = Inr (Some k))
              \<longrightarrow> get_or_create_key L ent ks = Inr (k, ks)"
    by (auto simp: get_or_create_key_def)
  have c6: "key_from_keyring L ks = Inr None \<and> key_from_file L ks = Inr None
            \<and> ((keyring_present ks \<and> keyring_writable ks) \<or> key_file_writable ks)
              \<longrightarrow> (\<exists>ks'. get_or_create_key L ent ks = Inr (fernet_generate_key L ent, ks'))"
    by (auto simp: get_or_create_key_def Let_def store_key_locally_def)
  show ?thesis
    by (rule conjI[OF c1 conjI[OF c2 conjI[OF c3 conjI[OF c4 conjI[OF c5 c6]]]]])
qed

lemma bad_keyring_result:
  "get_or_create_key sim_libs ''seed'' bad_keyring
     = Inr (''seedkkkk'', bad_keyring\<lparr>keyring_entry := Inr (Some ''seedkkkk'')\<rparr>)"
  by (simp add: get_or_create_key_def key_from_keyring_def key_from_file_def bad_keyring_def
        sim_valid_key_def sim_generate_key_def Let_def eval_nat_numeral)

theorem get_or_create_key_valid_witness:
  "keygen_ok sim_libs \<and> keyring_entry bad_keyring = Inr (Some ''bad'')
   \<and> \<not> fernet_valid_key sim_libs ''bad''
   \<and> fernet_valid_key sim_libs ''seedkkkk''
   \<and> returned_key (get_or_create_key sim_libs ''seed'' (bad_keyring\<lparr>keyring_entry := Inr None\<rparr>))
        = Inr ''seedkkkk''"
proof -
  have b: "keyring_entry bad_keyring = Inr (Some ''bad'')" "\<not> fernet_valid_key sim_libs ''bad''"
    by (simp_all add: bad_keyring_def sim_valid_key_def)
  from get_or_create_key_valid[OF sim_keygen_ok, of "''seed''" bad_keyring] b bad_keyring_result
  show ?thesis
    using sim_keygen_ok by auto
qed

text \<open>
  C5, as the specification words it, fails: with an entry in the credential manager that does
  not parse, the call returns a new key and the entry is that new key afterwards.
\<close>

theorem stored_key_replaced_counterexample:
  "keyring_entry bad_keyring = Inr (Some ''bad'')
   \<and> \<not> fernet_valid_key sim_libs ''bad''
   \<and> key_and_entry (get_or_create_key sim_libs ''seed'' bad_keyring)
       = Inr (''seedkkkk'', Inr (Some ''seedkkkk''))"
  by (simp add: bad_keyring_result sim_valid_key_def key_and_entry_def) (simp add: bad_keyring_def)


section \<open>The lock\<close>

lemma lock_inv_new: "lock_inv (new_lock b)"
  by (simp add: lock_inv_def new_lock_def)

lemma close_file_simps [simp]:
  "lock_file (close_file lk) = None" "lock_acquired (close_file lk) = lock_acquired lk"
  "backend (close_file lk) = backend lk"
  by (simp_all add: close_file_def split: option.splits)

lemma try_lock_cases:
  "try_lock a lk = (f, lk') \<Longrightarrow>
     (f = NoFault \<longrightarrow> lock_acquired lk') \<and> lock_inv (close_file lk') = lock_inv (close_file lk)
      \<and> (lock_acquired lk \<longrightarrow> lock_acquired lk')"
  by (auto simp: try_lock_def Let_def lock_inv_def split: if_splits)

lemma lock_inv_close: "lock_inv (close_file lk)"
  by (simp add: lock_inv_def)

lemma acquire_loop_inv: "lock_inv (snd (acquire_loop w timeout i lk))"
proof (induction w timeout i lk rule: acquire_loop.induct)
  case (1 w timeout i lk)
  obtain f lk' where t: "try_lock (w i) lk = (f, lk')" by (cases "try_lock (w i) lk")
  show ?case
  proof (cases f)
    case NoFault
    then show ?thesis
      using t try_lock_cases[OF t] by (subst acquire_loop.simps) (simp add: lock_inv_def)
  next
    case RaisesOther
    then show ?thesis
      using t by (subst acquire_loop.simps) (simp add: lock_inv_close)
  next
    case RaisesOSError
    then show ?thesis
      using t "1.IH"[OF t[symmetric]]
      by (subst acquire_loop.simps) (simp add: lock_inv_close)
  qed
qed

lemma release_released:
  "lock_inv lk \<Longrightarrow> \<exists>lk'. release r lk = Inr lk' \<and> released lk'"
  by (auto simp: release_def released_def lock_inv_def)

lemma release_noop: "released lk \<Longrightarrow> release r lk = Inr lk"
  by (simp add: release_def released_def)

lemma released_inv: "released lk \<Longrightarrow> lock_inv lk"
  by (simp add: released_def lock_inv_def)

lemma run_lock_inv:
  "lock_inv lk \<Longrightarrow> \<exists>lk'. run_lock lk ops = Inr lk' \<and> lock_inv lk'"
proof (induction ops arbitrary: lk)
  case Nil
  then show ?case by simp
next
  case (Cons o1 ops)
  show ?case
  proof (cases o1)
    case (Acquire w timeout)
    then show ?thesis
      using Cons.IH[OF acquire_loop_inv[of w timeout 0 lk]] by (simp add: acquire_def)
  next
    case (Release r)
    from release_released[OF Cons.prems, of r] obtain lk1 where
      "release r lk = Inr lk1" "released lk1" by blast
    then show ?thesis
      using Release Cons.IH[OF released_inv, of lk1] by simp
  qed
qed

text \<open>
  C8: after any sequence of \<open>acquire\<close> calls, successful or failed, and
  \<open>release\<close> calls on a new lock, none of which raises, \<open>release\<close> returns
  without raising and leaves the lock released, and a further \<open>release\<close> changes
  nothing.
\<close>

theorem release_idempotent:
  "\<exists>lk lk'. run_lock (new_lock b) ops = Inr lk
       \<and> release r lk = Inr lk' \<and> released lk'
       \<and> release r' lk' = Inr lk'"
proof -
  from run_lock_inv[OF lock_inv_new, of b ops] obtain lk where
    l: "run_lock (new_lock b) ops = Inr lk" "lock_inv lk" by blast
  from release_released[OF l(2), of r] obtain lk' where
    r: "release r lk = Inr lk'" "released lk'" by blast
  show ?thesis
    using l(1) r release_noop[OF r(2), of r'] by blast
qed


section \<open>Round trip and tamper detection\<close>

lemma entries_write_file [simp]: "entries (write_file cd p t) = entries cd"
  by (simp add: write_file_def split: option.splits)

lemma lookup_dir_write_other:
  "d' \<noteq> fst p \<Longrightarrow> lookup_dir (write_file cd p t) d' = lookup_dir cd d'"
  by (auto simp: write_file_def lookup_dir_def split: option.splits)

lemma lookup_dir_write_same:
  "lookup_dir cd d = Some (listed, files) \<Longrightarrow>
     lookup_dir (write_file cd (d, n) t) d
       = Some (if n \<in> set listed then listed else listed @ [n], files(n \<mapsto> t))"
  by (auto simp: write_file_def lookup_dir_def split: if_splits)

lemma dir_matches_write_other:
  "d' \<noteq> fst p \<Longrightarrow> dir_matches m (write_file cd p t) d' = dir_matches m cd d'"
  by (simp add: dir_matches_def lookup_dir_write_other)

lemma only_here_write:
  "only_here L cd d cid \<Longrightarrow> only_here L (write_file cd (d, n) t) d cid"
  by (simp add: only_here_def dir_matches_write_other)

lemma lookup_dir_mkdir_other:
  "mkdir_date ev cd d = Inr cd1 \<Longrightarrow> d' \<noteq> d \<Longrightarrow> lookup_dir cd1 d' = lookup_dir cd d'"
  by (auto simp: mkdir_date_def lookup_dir_def split: if_splits option.splits)

lemma entries_mkdir:
  "mkdir_date ev cd d = Inr cd1 \<Longrightarrow> set (entries cd1) = insert d (set (entries cd))"
  by (auto simp: mkdir_date_def split: if_splits option.splits)

lemma only_here_mkdir:
  assumes "only_here L cd d cid" and "mkdir_date ev cd d = Inr cd1"
  shows "only_here L cd1 d cid"
  using assms(1) entries_mkdir[OF assms(2)] lookup_dir_mkdir_other[OF assms(2)]
  by (auto simp: only_here_def dir_matches_def)

lemma first_of_singleton_set:
  assumes "xs \<noteq> []" and "\<forall>x \<in> set xs. x = a"
  shows "(case xs of [] \<Rightarrow> None | x # _ \<Rightarrow> Some x) = Some a"
  using assms by (cases xs) auto

lemma find_after_write:
  assumes dir: "lookup_dir cd d = Some dir"
      and only: "only_here L cd d cid"
  shows "find_by_new_token L (write_file cd (d, wrapper_name L cid) t) cid
           = Some (d, wrapper_name L cid)"
proof -
  let ?n = "wrapper_name L cid"
  let ?cd = "write_file cd (d, ?n) t"
  let ?m = "\<lambda>f. f = ?n"
  obtain listed files where lf: "dir = (listed, files)" by (cases dir)
  have d_in: "d \<in> set (entries cd)"
    using dir by (auto simp: lookup_dir_def split: if_splits)
  have same: "lookup_dir ?cd d = Some (if ?n \<in> set listed then listed else listed @ [?n], files(?n \<mapsto> t))"
    using lookup_dir_write_same[of cd d listed files ?n t] dir lf by simp
  have here: "(d, ?n) \<in> set (dir_matches ?m ?cd d)"
    by (auto simp: dir_matches_def same)
  have all_here: "\<forall>p \<in> set (dir_matches ?m ?cd d). p = (d, ?n)"
    by (auto simp: dir_matches_def same)
  have other: "\<forall>d' \<in> set (entries cd). d' \<noteq> d \<longrightarrow> dir_matches ?m ?cd d' = []"
    using only by (simp add: only_here_def dir_matches_write_other)
  have "(d, ?n) \<in> set (iter_archive_files ?m ?cd)"
    using here d_in by (auto simp: iter_archive_files_def intro: bexI[of _ d])
  then have ne: "iter_archive_files ?m ?cd \<noteq> []"
    by auto
  have all: "\<forall>p \<in> set (iter_archive_files ?m ?cd). p = (d, ?n)"
    using all_here other by (fastforce simp: iter_archive_files_def)
  show ?thesis
    unfolding find_by_new_token_def by (rule first_of_singleton_set[OF ne all])
qed

lemma read_after_write:
  "lookup_dir cd d = Some dir \<Longrightarrow> read_file (write_file cd (d, n) t) (d, n) = Some t"
  by (cases dir) (simp add: read_file_def lookup_dir_write_same)

lemma py_get_stored_obj [simp]:
  "py_get (stored_obj md b64 chk now) ''checksum'' dflt = Inr (JStr chk)"
  "py_get (stored_obj md b64 chk now) ''encrypted_content'' dflt = Inr (JStr b64)"
  "py_get (stored_obj md b64 chk now) ''metadata'' dflt = Inr md"
  "truthy (stored_obj md b64 chk now)"
  by (simp_all add: stored_obj_def)

lemma decrypt_fresh:
  assumes "fernet_ok L" "b64_ok L"
      and "fernet_encrypt L (encryption_key st) ent b = Some c"
      and "py_get w ''encrypted_content'' (JStr []) = Inr (JStr (b64encode L c))"
  shows "decrypt_bytes L st w = Inr (Some b, None)"
  using assms by (auto simp: decrypt_bytes_def fernet_ok_def b64_ok_def)

lemma verify_fresh:
  assumes "fernet_ok L" "b64_ok L"
      and "fernet_encrypt L (encryption_key st) ent b = Some c"
  shows "verify_wrapper L st cd cid fp (stored_obj md (b64encode L c) (sha256_hex L b) now) rc
           = Inr (\<lparr>conversation_id = cid,
                   state = (if rc \<and> json_loads L b = None then UNKNOWN else VALID),
                   filepath = Some fp, size_bytes = file_size cd fp,
                   expected_checksum = JStr (sha256_hex L b),
                   actual_checksum = Some (sha256_hex L b),
                   error_code = (if rc \<and> json_loads L b = None then Some ''JSON_DECODE_FAIL''
                                 else None)\<rparr>,
                  if rc then (case json_loads L b of Some v \<Rightarrow> v | None \<Rightarrow> JNull) else JNull)"
  using decrypt_fresh[OF assms, of "stored_obj md (b64encode L c) (sha256_hex L b) now"]
  by (auto simp: verify_wrapper_def Let_def split: option.splits)

lemma store_conv_id_of_id:
  "map_of md ''id'' = Some (JStr cid) \<Longrightarrow> cid \<noteq> [] \<Longrightarrow> store_conv_id (JObj md) = Inr (JStr cid)"
  by (auto simp: store_conv_id_def)

text \<open>What a successful store leaves behind.\<close>

lemma store_success:
  assumes st: "store_conversation L st ev cd r (JObj md) = (True, cd')"
      and id: "map_of md ''id'' = Some (JStr cid)" "cid \<noteq> []"
  shows "\<exists>b c cd1 dir wtext.
           json_dumps L r = Some b
         \<and> fernet_encrypt L (encryption_key st) (entropy ev) b = Some c
         \<and> mkdir_date ev cd (today ev) = Inr cd1
         \<and> lookup_dir cd1 (today ev) = Some dir
         \<and> json_dumps L (stored_obj (JObj md) (b64encode L c) (sha256_hex L b) (now_iso ev))
              = Some wtext
         \<and> cd' = write_file cd1 (today ev, wrapper_name L cid) wtext"
proof -
  from st obtain x where t: "store_try L st ev cd r (JObj md) = (None, cd')"
    by (auto simp: store_conversation_def split: prod.splits option.splits)
  from store_try_success[OF t] obtain b c cd1 conv_id name wtext where
    h: "json_dumps L r = Some b"
       "fernet_encrypt L (encryption_key st) (entropy ev) b = Some c"
       "mkdir_date ev cd (today ev) = Inr cd1"
       "store_conv_id (JObj md) = Inr conv_id"
       "wrapper_name_value L conv_id = Inr name"
       "json_dumps L (stored_obj (JObj md) (b64encode L c) (sha256_hex L b) (now_iso ev))
             = Some wtext"
       "cd' = write_file cd1 (today ev, name) wtext"
    by blast
  have "name = wrapper_name L cid"
    using h(4,5) store_conv_id_of_id[OF id] by auto
  then show ?thesis
    using h mkdir_date_dir[OF h(3)] by blast
qed

text \<open>
  C3, as the code has it: on a store whose key matches the manifest, after
  \<open>store(r, m)\<close> returned \<open>True\<close> for metadata with a non-empty string id, and
  when no other date directory lists a wrapper file for that id, \<open>retrieve(id)\<close>
  returns \<open>r\<close>.
\<close>

theorem store_then_retrieve:
  assumes libs: "fernet_ok L" "b64_ok L" "json_ok L"
      and ok: "\<not> key_mismatch st"
      and id: "map_of md ''id'' = Some (JStr cid)" "cid \<noteq> []"
      and only: "only_here L cd (today ev) cid"
      and st: "store_conversation L st ev cd r (JObj md) = (True, cd')"
  shows "retrieve_conversation L st cd' cid = Inr r"
proof -
  from store_success[OF st id] obtain b c cd1 dir wtext where
    h: "json_dumps L r = Some b"
       "fernet_encrypt L (encryption_key st) (entropy ev) b = Some c"
       "mkdir_date ev cd (today ev) = Inr cd1"
       "lookup_dir cd1 (today ev) = Some dir"
       "json_dumps L (stored_obj (JObj md) (b64encode L c) (sha256_hex L b) (now_iso ev))
              = Some wtext"
       "cd' = write_file cd1 (today ev, wrapper_name L cid) wtext"
    by blast
  let ?fp = "(today ev, wrapper_name L cid)"
  let ?w = "stored_obj (JObj md) (b64encode L c) (sha256_hex L b) (now_iso ev)"
  have f: "find_wrapper_path_for_conversation L cd' cid = Inr (Some ?fp)"
    using find_after_write[OF h(4) only_here_mkdir[OF only h(3)]] h(6)
    by (simp add: find_wrapper_path_for_conversation_def)
  have l: "load_wrapper L cd' ?fp = Some ?w"
    using read_after_write[OF h(4)] h(5,6) libs(3)
    by (simp add: load_wrapper_def json_ok_def)
  have r: "json_loads L b = Some r"
    using h(1) libs(3) by (simp add: json_ok_def)
  show ?thesis
    using ok f l r verify_fresh[OF libs(1,2) h(2), of cd' cid ?fp "JObj md" "now_iso ev" True]
    by (simp add: retrieve_conversation_def ensure_key_matches_manifest_def)
qed


lemma sim_store_new_day:
  assumes "d \<notin> set (entries cd)"
  shows "store_conversation sim_libs st (day d) cd r sample_metadata
     = (True, write_file
          (cd\<lparr>entries := entries cd @ [d], node_of := (node_of cd)(d \<mapsto> Dir [] Map.empty)\<rparr>)
          (d, wrapper_name sim_libs ''abc123'')
          (sim_enc (stored_obj sample_metadata (''F:'' @ encryption_key st @ sim_enc r)
                      (sim_sha256_hex (sim_enc r)) (d @ ''T00:00:00''))))"
  using assms
  by (simp add: store_conversation_def store_try_def mkdir_date_def day_def store_conv_id_def
        sample_metadata_def sim_encrypt_def del: sim_enc.simps)

lemma only_here_empty: "only_here L empty_dir d cid"
  by (simp add: only_here_def empty_dir_def)

theorem store_then_retrieve_witness:
  "fernet_ok sim_libs \<and> b64_ok sim_libs \<and> json_ok sim_libs \<and> \<not> key_mismatch sample_store
   \<and> only_here sim_libs empty_dir (today (day ''2024-01-02'')) ''abc123''
   \<and> fst (store_conversation sim_libs sample_store (day ''2024-01-02'') empty_dir
             sample_record sample_metadata)
   \<and> retrieve_conversation sim_libs sample_store
        (snd (store_conversation sim_libs sample_store (day ''2024-01-02'') empty_dir
                sample_record sample_metadata)) ''abc123''
       = Inr sample_record"
proof -
  have ok: "\<not> key_mismatch sample_store"
    by (simp add: sample_store_def)
  have id: "map_of [(''id'', JStr ''abc123'')] ''id'' = Some (JStr ''abc123'')" "''abc123'' \<noteq> []"
    by simp_all
  have t: "fst (store_conversation sim_libs sample_store (day ''2024-01-02'') empty_dir
             sample_record sample_metadata)"
    by (simp add: sim_store_new_day empty_dir_def)
  then have st: "store_conversation sim_libs sample_store (day ''2024-01-02'') empty_dir
             sample_record (JObj [(''id'', JStr ''abc123'')])
           = (True, snd (store_conversation sim_libs sample_store (day ''2024-01-02'') empty_dir
                sample_record sample_metadata))"
    by (simp add: sample_metadata_def prod_eq_iff)
  from store_then_retrieve[OF sim_fernet_ok sim_b64_ok sim_json_ok ok id only_here_empty st]
  show ?thesis
    using sim_fernet_ok sim_b64_ok sim_json_ok ok only_here_empty t by simp
qed

section \<open>Writing on a poisoned store\<close>

lemma store_try_flag:
  "store_try L (st\<lparr>key_mismatch := f\<rparr>) ev cd conversation metadata_dict
     = store_try L st ev cd conversation metadata_dict"
  by (simp add: store_try_def cong: option.case_cong sum.case_cong)

lemma store_conversation_flag:
  "store_conversation L (st\<lparr>key_mismatch := f\<rparr>) ev cd conversation metadata_dict
     = store_conversation L st ev cd conversation metadata_dict"
  by (simp add: store_conversation_def store_try_flag)

lemma store_try_runs:
  assumes b: "json_dumps L r = Some b"
      and c: "fernet_encrypt L (encryption_key st) (entropy ev) b = Some c"
      and w: "json_dumps L (stored_obj (JObj md) (b64encode L c) (sha256_hex L b) (now_iso ev))
                = Some wtext"
      and m: "mkdir_date ev cd (today ev) = Inr cd1"
      and env: "\<not> fault_open ev" "\<not> fault_write ev" "\<not> fault_chmod ev"
      and id: "map_of md ''id'' = Some (JStr cid)" "cid \<noteq> []"
  shows "store_try L st ev cd r (JObj md)
           = (None, write_file cd1 (today ev, wrapper_name L cid) wtext)"
  using b c w m env store_conv_id_of_id[OF id]
  by (simp add: store_try_def)

lemma mkdir_date_runs:
  assumes "\<not> fault_mkdir ev"
      and "d \<in> set (entries cd) \<longrightarrow> lookup_dir cd d \<noteq> None"
  shows "\<exists>cd1. mkdir_date ev cd d = Inr cd1"
  using assms by (auto simp: mkdir_date_def split: option.splits)

text \<open>
  C10: \<open>store_conversation\<close> does not read \<open>_key_mismatch\<close>. On a poisoned store,
  where \<open>verify\<close> and \<open>retrieve\<close> fail closed, a call whose steps all succeed
  (the libraries do not raise, the directory of the day can be made, the file opened,
  written and its mode set, and the metadata carry a non-empty string id) encrypts the
  record under the key of the store, writes the wrapper of the record to the file of
  the id in the directory of the day, and returns \<open>True\<close>. The file is a wrapper
  the same store unpoisoned reads back as the record. And every call, whatever its
  arguments, returns what it returns on the same store unpoisoned and leaves the same
  directory.
\<close>

theorem store_ignores_key_mismatch:
  assumes poisoned: "key_mismatch st"
      and libs: "never_raise L"
      and env: "\<not> fault_mkdir ev" "\<not> fault_open ev" "\<not> fault_write ev" "\<not> fault_chmod ev"
      and day_dir: "today ev \<in> set (entries cd) \<longrightarrow> lookup_dir cd (today ev) \<noteq> None"
      and id: "map_of md ''id'' = Some (JStr cid)" "cid \<noteq> []"
  shows "fst (store_conversation L st ev cd r (JObj md))
       \<and> (\<exists>b c wtext.
             json_dumps L r = Some b
           \<and> fernet_encrypt L (encryption_key st) (entropy ev) b = Some c
           \<and> json_dumps L (stored_obj (JObj md) (b64encode L c) (sha256_hex L b) (now_iso ev))
                = Some wtext
           \<and> read_file (snd (store_conversation L st ev cd r (JObj md)))
                (today ev, wrapper_name L cid) = Some wtext)
       \<and> verified L st (snd (store_conversation L st ev cd r (JObj md))) cid
           = Inr (UNREADABLE, Some ''WRONG_KEY_MANIFEST_MISMATCH'')
       \<and> retrieve_conversation L st (snd (store_conversation L st ev cd r (JObj md))) cid
           = Inr JNull
       \<and> (fernet_ok L \<and> b64_ok L \<and> json_ok L \<and> only_here L cd (today ev) cid \<longrightarrow>
            retrieve_conversation L (st\<lparr>key_mismatch := False\<rparr>)
              (snd (store_conversation L st ev cd r (JObj md))) cid = Inr r)
       \<and> (\<forall>ev' cd' conversation metadata_dict.
            store_conversation L st ev' cd' conversation metadata_dict
              = store_conversation L (st\<lparr>key_mismatch := False\<rparr>) ev' cd' conversation
                  metadata_dict)"
proof -
  let ?st = "st\<lparr>key_mismatch := False\<rparr>"
  let ?fp = "(today ev, wrapper_name L cid)"
  from libs have dumps: "\<And>v. \<exists>s. json_dumps L v = Some s"
    and encrypts: "\<And>k ent x. \<exists>t. fernet_encrypt L k ent x = Some t"
    by (auto simp: never_raise_def)
  from dumps obtain b where b: "json_dumps L r = Some b"
    by blast
  from encrypts obtain c where c: "fernet_encrypt L (encryption_key st) (entropy ev) b = Some c"
    by blast
  let ?w = "stored_obj (JObj md) (b64encode L c) (sha256_hex L b) (now_iso ev)"
  from dumps obtain wtext where w: "json_dumps L ?w = Some wtext"
    by blast
  from mkdir_date_runs[OF env(1) day_dir] obtain cd1 where
    m: "mkdir_date ev cd (today ev) = Inr cd1" by blast
  from mkdir_date_dir[OF m] obtain dir where d: "lookup_dir cd1 (today ev) = Some dir"
    by blast
  let ?cd = "write_file cd1 ?fp wtext"
  have s: "store_conversation L st ev cd r (JObj md) = (True, ?cd)"
    using store_try_runs[OF b c w m env(2,3,4) id]
    by (simp add: store_conversation_def)
  have rd: "read_file ?cd ?fp = Some wtext"
    by (rule read_after_write[OF d])
  have c1: "fst (store_conversation L st ev cd r (JObj md))"
    using s by simp
  have c2: "\<exists>b c wtext.
             json_dumps L r = Some b
           \<and> fernet_encrypt L (encryption_key st) (entropy ev) b = Some c
           \<and> json_dumps L (stored_obj (JObj md) (b64encode L c) (sha256_hex L b) (now_iso ev))
                = Some wtext
           \<and> read_file (snd (store_conversation L st ev cd r (JObj md)))
                (today ev, wrapper_name L cid) = Some wtext"
    using b c w rd s by simp
  have c3: "verified L st (snd (store_conversation L st ev cd r (JObj md))) cid
           = Inr (UNREADABLE, Some ''WRONG_KEY_MANIFEST_MISMATCH'')"
    by (simp add: poisoned_verify[OF poisoned])
  have c4: "retrieve_conversation L st (snd (store_conversation L st ev cd r (JObj md))) cid
           = Inr JNull"
    by (rule poisoned_retrieve[OF poisoned])
  have c5: "fernet_ok L \<and> b64_ok L \<and> json_ok L \<and> only_here L cd (today ev) cid \<longrightarrow>
            retrieve_conversation L ?st
              (snd (store_conversation L st ev cd r (JObj md))) cid = Inr r"
  proof
    assume a: "fernet_ok L \<and> b64_ok L \<and> json_ok L \<and> only_here L cd (today ev) cid"
    then have only: "only_here L cd (today ev) cid" and j: "json_ok L"
      and f: "fernet_ok L" and b64: "b64_ok L"
      by simp_all
    have k: "fernet_encrypt L (encryption_key ?st) (entropy ev) b = Some c"
      using c by simp
    have fnd: "find_wrapper_path_for_conversation L ?cd cid = Inr (Some ?fp)"
      using find_after_write[OF d only_here_mkdir[OF only m], of wtext]
      by (simp add: find_wrapper_path_for_conversation_def)
    have l: "load_wrapper L ?cd ?fp = Some ?w"
      using rd w j by (simp add: load_wrapper_def json_ok_def)
    have loads: "json_loads L b = Some r"
      using b j by (simp add: json_ok_def)
    have "retrieve_conversation L ?st ?cd cid = Inr r"
      using fnd l loads verify_fresh[OF f b64 k, of ?cd cid ?fp "JObj md" "now_iso ev" True]
      by (simp add: retrieve_conversation_def ensure_key_matches_manifest_def)
    then show "retrieve_conversation L ?st
              (snd (store_conversation L st ev cd r (JObj md))) cid = Inr r"
      using s by simp
  qed
  have c6: "\<forall>ev' cd' conversation metadata_dict.
            store_conversation L st ev' cd' conversation metadata_dict
              = store_conversation L ?st ev' cd' conversation metadata_dict"
    by (simp add: store_conversation_flag)
  show ?thesis
    by (rule conjI[OF c1 conjI[OF c2 conjI[OF c3 conjI[OF c4 conjI[OF c5 c6]]]]])
qed

lemma poisoned_store_simps:
  "key_mismatch poisoned_store" "encryption_key poisoned_store = sample_key"
  "poisoned_store\<lparr>key_mismatch := False\<rparr> = sample_store"
  by (simp_all add: poisoned_store_def sample_store_def)

theorem store_ignores_key_mismatch_witness:
  "key_mismatch poisoned_store \<and> never_raise sim_libs
   \<and> fernet_ok sim_libs \<and> b64_ok sim_libs \<and> json_ok sim_libs
   \<and> only_here sim_libs empty_dir ''2024-01-02'' ''abc123''
   \<and> fst (store_conversation sim_libs poisoned_store (day ''2024-01-02'') empty_dir
            sample_record sample_metadata)
   \<and> read_file (snd (store_conversation sim_libs poisoned_store (day ''2024-01-02'') empty_dir
                       sample_record sample_metadata))
        (''2024-01-02'', wrapper_name sim_libs ''abc123'')
       = Some (sim_enc (stored_obj sample_metadata (''F:'' @ sample_key @ sim_enc sample_record)
                          (sim_sha256_hex (sim_enc sample_record)) ''2024-01-02T00:00:00''))
   \<and> verified sim_libs poisoned_store
        (snd (store_conversation sim_libs poisoned_store (day ''2024-01-02'') empty_dir
                sample_record sample_metadata)) ''abc123''
       = Inr (UNREADABLE, Some ''WRONG_KEY_MANIFEST_MISMATCH'')
   \<and> retrieve_conversation sim_libs sample_store
        (snd (store_conversation sim_libs poisoned_store (day ''2024-01-02'') empty_dir
                sample_record sample_metadata)) ''abc123''
       = Inr sample_record
   \<and> store_conversation sim_libs poisoned_store (day ''2024-01-02'') empty_dir
        sample_record sample_metadata
       = store_conversation sim_libs sample_store (day ''2024-01-02'') empty_dir
           sample_record sample_metadata"
proof -
  have env: "\<not> fault_mkdir (day ''2024-01-02'')" "\<not> fault_open (day ''2024-01-02'')"
            "\<not> fault_write (day ''2024-01-02'')" "\<not> fault_chmod (day ''2024-01-02'')"
    by (simp_all add: day_def)
  have day_dir: "today (day ''2024-01-02'') \<in> set (entries empty_dir)
                   \<longrightarrow> lookup_dir empty_dir (today (day ''2024-01-02'')) \<noteq> None"
    by (simp add: empty_dir_def)
  have id: "map_of [(''id'', JStr ''abc123'')] ''id'' = Some (JStr ''abc123'')" "''abc123'' \<noteq> []"
    by simp_all
  have t: "today (day ''2024-01-02'') = ''2024-01-02''"
          "now_iso (day ''2024-01-02'') = ''2024-01-02T00:00:00''"
          "entropy (day ''2024-01-02'') = ''iv''"
    by (simp_all add: day_def)
  have md: "JObj [(''id'', JStr ''abc123'')] = sample_metadata"
    by (simp add: sample_metadata_def)
  have enc: "\<And>c. sim_encrypt sample_key ''iv'' (sim_enc sample_record) = Some c
                 \<longleftrightarrow> c = ''F:'' @ sample_key @ sim_enc sample_record"
    by (auto simp: sim_encrypt_def)
  from store_ignores_key_mismatch[OF poisoned_store_simps(1) sim_never_raise env day_dir id,
      of sample_record]
  have "fst (store_conversation sim_libs poisoned_store (day ''2024-01-02'') empty_dir
            sample_record sample_metadata)
   \<and> read_file (snd (store_conversation sim_libs poisoned_store (day ''2024-01-02'') empty_dir
                       sample_record sample_metadata))
        (''2024-01-02'', wrapper_name sim_libs ''abc123'')
       = Some (sim_enc (stored_obj sample_metadata (''F:'' @ sample_key @ sim_enc sample_record)
                          (sim_sha256_hex (sim_enc sample_record)) ''2024-01-02T00:00:00''))
   \<and> verified sim_libs poisoned_store
        (snd (store_conversation sim_libs poisoned_store (day ''2024-01-02'') empty_dir
                sample_record sample_metadata)) ''abc123''
       = Inr (UNREADABLE, Some ''WRONG_KEY_MANIFEST_MISMATCH'')
   \<and> (fernet_ok sim_libs \<and> b64_ok sim_libs \<and> json_ok sim_libs
        \<and> only_here sim_libs empty_dir ''2024-01-02'' ''abc123'' \<longrightarrow>
        retrieve_conversation sim_libs sample_store
          (snd (store_conversation sim_libs poisoned_store (day ''2024-01-02'') empty_dir
                  sample_record sample_metadata)) ''abc123''
         = Inr sample_record)
   \<and> store_conversation sim_libs poisoned_store (day ''2024-01-02'') empty_dir
        sample_record sample_metadata
       = store_conversation sim_libs sample_store (day ''2024-01-02'') empty_dir
           sample_record sample_metadata"
    unfolding t md poisoned_store_simps
    by (auto simp: enc simp del: sim_enc.simps)
  then show ?thesis
    using poisoned_store_simps(1) sim_never_raise sim_fernet_ok sim_b64_ok sim_json_ok
      only_here_empty[of sim_libs "''2024-01-02''" "''abc123''"]
    by blast
qed


lemma stored_once_eq:
  "stored_once = one_file ''2024-01-01'' (wrapper_name sim_libs ''abc123'')
       (sim_enc (stored_obj sample_metadata (''F:'' @ sample_key @ sim_enc old_record)
                      (sim_sha256_hex (sim_enc old_record)) ''2024-01-01T00:00:00''))"
  by (simp add: stored_once_def sim_store_new_day empty_dir_def write_file_def lookup_dir_def
        one_file_def sample_store_def del: sim_enc.simps)

lemma sample_encrypt:
  "fernet_encrypt sim_libs (encryption_key sample_store) ent b = Some (''F:'' @ sample_key @ b)"
  by (simp add: sim_encrypt_def sample_store_def)

text \<open>The lookup in an archive whose first directory lists the wrapper.\<close>

lemma find_in_first_dir:
  assumes "entries cd = d # ds"
      and "lookup_dir cd d = Some (listed, files)"
      and "wrapper_name L cid \<in> set listed"
  shows "find_wrapper_path_for_conversation L cd cid = Inr (Some (d, wrapper_name L cid))"
proof -
  from assms(3) obtain x xs where "filter (\<lambda>f. f = wrapper_name L cid) listed = x # xs"
    by (cases "filter (\<lambda>f. f = wrapper_name L cid) listed") (auto simp: filter_empty_conv)
  moreover from this have "x \<in> set (filter (\<lambda>f. f = wrapper_name L cid) listed)"
    by simp
  then have "x = wrapper_name L cid"
    by simp
  ultimately show ?thesis
    using assms(1,2)
    by (simp add: find_wrapper_path_for_conversation_def find_by_new_token_def
          iter_archive_files_def dir_matches_def)
qed

lemma stored_twice_first:
  "entries stored_twice = [''2024-01-01'', ''2024-01-02'']"
  "lookup_dir stored_twice ''2024-01-01''
     = Some ([wrapper_name sim_libs ''abc123''],
             [wrapper_name sim_libs ''abc123'' \<mapsto>
                sim_enc (stored_obj sample_metadata (''F:'' @ sample_key @ sim_enc old_record)
                      (sim_sha256_hex (sim_enc old_record)) ''2024-01-01T00:00:00'')])"
  "lookup_dir stored_twice ''2024-01-02'' \<noteq> None"
  by (simp_all add: stored_twice_def stored_once_eq sim_store_new_day one_file_def
        write_file_def lookup_dir_def del: sim_enc.simps)

lemma retrieve_stored_twice:
  "retrieve_conversation sim_libs sample_store stored_twice ''abc123'' = Inr old_record"
proof -
  let ?fp = "(''2024-01-01'', wrapper_name sim_libs ''abc123'')"
  have f: "find_wrapper_path_for_conversation sim_libs stored_twice ''abc123'' = Inr (Some ?fp)"
    by (rule find_in_first_dir[OF stored_twice_first(1) stored_twice_first(2)]) simp
  have l: "load_wrapper sim_libs stored_twice ?fp
      = Some (stored_obj sample_metadata (b64encode sim_libs (''F:'' @ sample_key @ sim_enc old_record))
                      (sha256_hex sim_libs (sim_enc old_record)) ''2024-01-01T00:00:00'')"
    by (simp add: load_wrapper_def read_file_def stored_twice_first(2) del: sim_enc.simps)
  show ?thesis
    using f l verify_fresh[OF sim_fernet_ok sim_b64_ok sample_encrypt, of stored_twice "''abc123''" ?fp
        sample_metadata "sim_enc old_record" "''2024-01-01T00:00:00''" True]
    by (simp add: retrieve_conversation_def ensure_key_matches_manifest_def del: sim_enc.simps)
       (simp add: sample_store_def)
qed

text \<open>
  C3, as the specification words it, fails: with the same id stored the day before, the lookup
  finds the older wrapper first and \<open>retrieve\<close> returns the older record.
\<close>

theorem shadowed_round_trip_counterexample:
  "fst (store_conversation sim_libs sample_store (day ''2024-01-02'') stored_once
          sample_record sample_metadata)
   \<and> retrieve_conversation sim_libs sample_store
        (snd (store_conversation sim_libs sample_store (day ''2024-01-02'') stored_once
                sample_record sample_metadata)) ''abc123''
       = Inr old_record
   \<and> old_record \<noteq> sample_record"
  using retrieve_stored_twice
  by (simp add: stored_twice_def sim_store_new_day stored_once_eq one_file_def
        old_record_def sample_record_def del: sim_enc.simps)

lemma one_byte_changed_ne:
  "one_byte_changed old new \<Longrightarrow> new \<noteq> [] \<and> new \<noteq> old"
  by (auto simp: one_byte_changed_def) (metis nth_list_update_eq)

lemma set_checksum_stored_obj:
  "set_checksum (stored_obj md b64 chk now) c = stored_obj md b64 c now"
  by (simp add: stored_obj_def)

lemma verify_tampered:
  assumes "fernet_ok L" "b64_ok L"
      and "fernet_encrypt L (encryption_key st) ent b = Some c"
      and "chk \<noteq> []" "chk \<noteq> sha256_hex L b"
  shows "\<exists>res. verify_wrapper L st cd cid fp (stored_obj md (b64encode L c) chk now) rc
               = Inr (res, JNull)
             \<and> state res = CORRUPT \<and> error_code res = Some ''CHECKSUM_MISMATCH''"
  using decrypt_fresh[OF assms(1,2,3), of "stored_obj md (b64encode L c) chk now"] assms(4,5)
  by (auto simp: verify_wrapper_def Let_def)

text \<open>
  C4, as the code has it: on a store whose key matches the manifest, after a successful
  store under a non-empty string id, with no other date directory listing a wrapper
  file for that id, changing one byte of the checksum field of the stored wrapper makes
  \<open>verify(id)\<close> answer \<open>CORRUPT\<close> with \<open>CHECKSUM_MISMATCH\<close>.
\<close>

theorem checksum_tamper_detected:
  assumes libs: "fernet_ok L" "b64_ok L" "json_ok L"
      and ok: "\<not> key_mismatch st"
      and id: "map_of md ''id'' = Some (JStr cid)" "cid \<noteq> []"
      and only: "only_here L cd (today ev) cid"
      and st: "store_conversation L st ev cd r (JObj md) = (True, cd')"
      and plain: "json_dumps L r = Some b"
      and flip: "one_byte_changed (sha256_hex L b) c'"
      and ser: "json_dumps L (set_checksum w c') \<noteq> None"
      and w: "load_wrapper L cd' (today ev, wrapper_name L cid) = Some w"
  shows "\<exists>res. verify_conversation L st (tamper L cd' (today ev, wrapper_name L cid) c') cid
                 = Inr res
             \<and> state res = CORRUPT \<and> error_code res = Some ''CHECKSUM_MISMATCH''"
proof -
  from store_success[OF st id] plain obtain c cd1 dir wtext where
    h: "fernet_encrypt L (encryption_key st) (entropy ev) b = Some c"
       "mkdir_date ev cd (today ev) = Inr cd1"
       "lookup_dir cd1 (today ev) = Some dir"
       "json_dumps L (stored_obj (JObj md) (b64encode L c) (sha256_hex L b) (now_iso ev))
              = Some wtext"
       "cd' = write_file cd1 (today ev, wrapper_name L cid) wtext"
    by auto
  let ?fp = "(today ev, wrapper_name L cid)"
  let ?w' = "stored_obj (JObj md) (b64encode L c) c' (now_iso ev)"
  have l: "load_wrapper L cd' ?fp
             = Some (stored_obj (JObj md) (b64encode L c) (sha256_hex L b) (now_iso ev))"
    using read_after_write[OF h(3)] h(4,5) libs(3)
    by (simp add: load_wrapper_def json_ok_def)
  then have w_eq: "w = stored_obj (JObj md) (b64encode L c) (sha256_hex L b) (now_iso ev)"
    using w by simp
  obtain t' where t': "json_dumps L ?w' = Some t'"
    using ser w_eq by (auto simp: set_checksum_stored_obj)
  have tam: "tamper L cd' ?fp c' = write_file cd' ?fp t'"
    using l t' by (simp add: tamper_def set_checksum_stored_obj)
  obtain dir' where d': "lookup_dir cd' (today ev) = Some dir'"
    using h(3,5) by (cases dir) (simp add: lookup_dir_write_same)
  have only': "only_here L cd' (today ev) cid"
    using only_here_write[OF only_here_mkdir[OF only h(2)]] h(5) by simp
  have f: "find_wrapper_path_for_conversation L (write_file cd' ?fp t') cid = Inr (Some ?fp)"
    using find_after_write[OF d' only'] by (simp add: find_wrapper_path_for_conversation_def)
  have l': "load_wrapper L (write_file cd' ?fp t') ?fp = Some ?w'"
    using read_after_write[OF d'] t' libs(3) by (simp add: load_wrapper_def json_ok_def)
  from verify_tampered[OF libs(1,2) h(1), of c' "write_file cd' ?fp t'" cid ?fp "JObj md"
      "now_iso ev" False] one_byte_changed_ne[OF flip]
  obtain res where
    "verify_wrapper L st (write_file cd' ?fp t') cid ?fp ?w' False = Inr (res, JNull)"
    "state res = CORRUPT" "error_code res = Some ''CHECKSUM_MISMATCH''"
    by auto
  then show ?thesis
    using ok f l' tam
    by (simp add: verify_conversation_def ensure_key_matches_manifest_def)
qed

lemma sim_sha_first: "sim_sha256_hex (sim_enc sample_record) ! 0 = CHR ''7''"
  by (simp add: sim_sha256_hex_def sample_record_def sim_hex_def)

lemma flipped_changed: "one_byte_changed (sha256_hex sim_libs (sim_enc sample_record)) flipped"
  unfolding one_byte_changed_def flipped_def
  by (rule exI[of _ 0]) (simp add: sim_sha_first del: sim_enc.simps, rule exI[of _ "CHR ''g''"], simp)

lemma entries_tamper [simp]: "entries (tamper L cd fp c) = entries cd"
  by (simp add: tamper_def split: option.splits)

lemma lookup_dir_tamper_other:
  "d \<noteq> fst fp \<Longrightarrow> lookup_dir (tamper L cd fp c) d = lookup_dir cd d"
  by (simp add: tamper_def lookup_dir_write_other split: option.splits)

lemma stored_twice_second:
  "lookup_dir stored_twice ''2024-01-02''
     = Some ([wrapper_name sim_libs ''abc123''],
             [wrapper_name sim_libs ''abc123'' \<mapsto>
                sim_enc (stored_obj sample_metadata (''F:'' @ sample_key @ sim_enc sample_record)
                      (sim_sha256_hex (sim_enc sample_record)) ''2024-01-02T00:00:00'')])"
  by (simp add: stored_twice_def stored_once_eq sim_store_new_day one_file_def
        write_file_def lookup_dir_def sample_store_def del: sim_enc.simps)

lemma tamper_stored_twice:
  "load_wrapper sim_libs
      (tamper sim_libs stored_twice (''2024-01-02'', wrapper_name sim_libs ''abc123'') flipped)
      (''2024-01-02'', wrapper_name sim_libs ''abc123'')
     = Some (stored_obj sample_metadata (''F:'' @ sample_key @ sim_enc sample_record)
               flipped ''2024-01-02T00:00:00'')"
proof -
  let ?fp = "(''2024-01-02'', wrapper_name sim_libs ''abc123'')"
  have l0: "load_wrapper sim_libs stored_twice ?fp
      = Some (stored_obj sample_metadata (''F:'' @ sample_key @ sim_enc sample_record)
                (sim_sha256_hex (sim_enc sample_record)) ''2024-01-02T00:00:00'')"
    by (simp add: load_wrapper_def read_file_def stored_twice_second del: sim_enc.simps)
  have tam: "tamper sim_libs stored_twice ?fp flipped
      = write_file stored_twice ?fp
          (sim_enc (stored_obj sample_metadata (''F:'' @ sample_key @ sim_enc sample_record)
                      flipped ''2024-01-02T00:00:00''))"
    by (simp add: tamper_def l0 set_checksum_stored_obj del: sim_enc.simps)
  show ?thesis
    by (simp only: tam load_wrapper_def read_after_write[OF stored_twice_second]) simp
qed

lemma verify_tampered_twice:
  "(verified_state sim_libs sample_store
        (tamper sim_libs stored_twice (''2024-01-02'', wrapper_name sim_libs ''abc123'') flipped)
        ''abc123'') = Inr VALID"
proof -
  let ?cd = "tamper sim_libs stored_twice (''2024-01-02'', wrapper_name sim_libs ''abc123'') flipped"
  let ?fp = "(''2024-01-01'', wrapper_name sim_libs ''abc123'')"
  have d1: "lookup_dir ?cd ''2024-01-01'' = lookup_dir stored_twice ''2024-01-01''"
    by (rule lookup_dir_tamper_other) simp
  have f: "find_wrapper_path_for_conversation sim_libs ?cd ''abc123'' = Inr (Some ?fp)"
    by (rule find_in_first_dir[where ds = "[''2024-01-02'']" and listed = "[wrapper_name sim_libs ''abc123'']"])
       (simp_all add: stored_twice_first d1 del: sim_enc.simps)
  have l: "load_wrapper sim_libs ?cd ?fp
      = Some (stored_obj sample_metadata (b64encode sim_libs (''F:'' @ sample_key @ sim_enc old_record))
                      (sha256_hex sim_libs (sim_enc old_record)) ''2024-01-01T00:00:00'')"
    by (simp add: load_wrapper_def read_file_def d1 stored_twice_first(2) del: sim_enc.simps)
  show ?thesis
    using f l verify_fresh[OF sim_fernet_ok sim_b64_ok sample_encrypt, of ?cd "''abc123''" ?fp
        sample_metadata "sim_enc old_record" "''2024-01-01T00:00:00''" False]
    by (simp add: verify_conversation_def ensure_key_matches_manifest_def del: sim_enc.simps)
       (simp add: sample_store_def)
qed

theorem checksum_tamper_detected_witness:
  "fernet_ok sim_libs \<and> b64_ok sim_libs \<and> json_ok sim_libs \<and> \<not> key_mismatch sample_store
   \<and> only_here sim_libs empty_dir (today (day ''2024-01-02'')) ''abc123''
   \<and> fst (store_conversation sim_libs sample_store (day ''2024-01-02'') empty_dir
             sample_record sample_metadata)
   \<and> one_byte_changed (sha256_hex sim_libs (sim_enc sample_record)) flipped
   \<and> (verified sim_libs sample_store
           (tamper sim_libs
              (snd (store_conversation sim_libs sample_store (day ''2024-01-02'') empty_dir
                      sample_record sample_metadata))
              (''2024-01-02'', wrapper_name sim_libs ''abc123'') flipped)
           ''abc123'') = Inr (CORRUPT, Some ''CHECKSUM_MISMATCH'')"
proof -
  let ?cd' = "snd (store_conversation sim_libs sample_store (day ''2024-01-02'') empty_dir
                sample_record sample_metadata)"
  have ok: "\<not> key_mismatch sample_store"
    by (simp add: sample_store_def)
  have id: "map_of [(''id'', JStr ''abc123'')] ''id'' = Some (JStr ''abc123'')" "''abc123'' \<noteq> []"
    by simp_all
  have t: "fst (store_conversation sim_libs sample_store (day ''2024-01-02'') empty_dir
             sample_record sample_metadata)"
    by (simp add: sim_store_new_day empty_dir_def)
  then have st: "store_conversation sim_libs sample_store (day ''2024-01-02'') empty_dir
             sample_record (JObj [(''id'', JStr ''abc123'')]) = (True, ?cd')"
    by (simp add: sample_metadata_def prod_eq_iff)
  have plain: "json_dumps sim_libs sample_record = Some (sim_enc sample_record)"
    by simp
  have d: "today (day ''2024-01-02'') = ''2024-01-02''"
    by (simp add: day_def)
  have w: "load_wrapper sim_libs ?cd' (today (day ''2024-01-02''), wrapper_name sim_libs ''abc123'')
             = Some (stored_obj sample_metadata (''F:'' @ sample_key @ sim_enc sample_record)
                      (sim_sha256_hex (sim_enc sample_record)) ''2024-01-02T00:00:00'')"
    by (simp add: sim_store_new_day empty_dir_def load_wrapper_def read_file_def write_file_def
          lookup_dir_def d sample_store_def del: sim_enc.simps)
  have ser: "json_dumps sim_libs
               (set_checksum (stored_obj sample_metadata (''F:'' @ sample_key @ sim_enc sample_record)
                      (sim_sha256_hex (sim_enc sample_record)) ''2024-01-02T00:00:00'') flipped) \<noteq> None"
    by simp
  from checksum_tamper_detected[OF sim_fernet_ok sim_b64_ok sim_json_ok ok id only_here_empty st
      plain flipped_changed ser w]
  show ?thesis
    using sim_fernet_ok sim_b64_ok sim_json_ok ok only_here_empty t flipped_changed d
    by auto
qed

text \<open>
  C4, as the specification words it, fails twice: on a store whose key does not match the
  manifest the store succeeds and \<open>verify\<close> answers \<open>UNREADABLE\<close>; and with the
  same id stored the day before, \<open>verify\<close> reads the older wrapper and answers
  \<open>VALID\<close>, whatever was done to the newer one.
\<close>

theorem tamper_not_corrupt_counterexample:
  "fst (store_conversation sim_libs poisoned_store (day ''2024-01-02'') empty_dir
          sample_record sample_metadata)
   \<and> one_byte_changed (sha256_hex sim_libs (sim_enc sample_record)) flipped
   \<and> (verified_state sim_libs poisoned_store
           (tamper sim_libs
              (snd (store_conversation sim_libs poisoned_store (day ''2024-01-02'') empty_dir
                      sample_record sample_metadata))
              (''2024-01-02'', wrapper_name sim_libs ''abc123'') flipped)
           ''abc123'') = Inr UNREADABLE
   \<and> fst (store_conversation sim_libs sample_store (day ''2024-01-02'') stored_once
          sample_record sample_metadata)
   \<and> stored_checksum sim_libs
           (tamper sim_libs
              (snd (store_conversation sim_libs sample_store (day ''2024-01-02'') stored_once
                      sample_record sample_metadata))
              (''2024-01-02'', wrapper_name sim_libs ''abc123'') flipped)
           (''2024-01-02'', wrapper_name sim_libs ''abc123'')
       = Some (JStr flipped)
   \<and> (verified_state sim_libs sample_store
           (tamper sim_libs
              (snd (store_conversation sim_libs sample_store (day ''2024-01-02'') stored_once
                      sample_record sample_metadata))
              (''2024-01-02'', wrapper_name sim_libs ''abc123'') flipped)
           ''abc123'') = Inr VALID"
proof -
  have p: "key_mismatch poisoned_store"
    by (simp add: poisoned_store_def)
  have a: "fst (store_conversation sim_libs poisoned_store (day ''2024-01-02'') empty_dir
          sample_record sample_metadata)"
    by (simp add: sim_store_new_day empty_dir_def)
  have b: "fst (store_conversation sim_libs sample_store (day ''2024-01-02'') stored_once
          sample_record sample_metadata)"
    by (simp add: sim_store_new_day stored_once_eq one_file_def)
  show ?thesis
    using a b flipped_changed verify_tampered_twice tamper_stored_twice
    by (simp add: poisoned_verify[OF p] stored_twice_def[symmetric] stored_checksum_def
          del: sim_enc.simps)
qed


section \<open>Archives that hold only sound wrappers\<close>

lemma set_dir_matches:
  "set (dir_matches m cd d)
     = {(d', n). d' = d \<and> m n \<and> (\<exists>listed files. lookup_dir cd d = Some (listed, files) \<and> n \<in> set listed)}"
  by (cases "lookup_dir cd d") (auto simp: dir_matches_def)

lemma set_iter_archive_files:
  "set (iter_archive_files m cd) = {p \<in> listed_paths cd. m (snd p)}"
  by (auto simp: iter_archive_files_def set_dir_matches listed_paths_def)

lemma first_cases:
  "(case xs of [] \<Rightarrow> None | x # _ \<Rightarrow> Some x) = None \<longleftrightarrow> set xs = {}"
  "(case xs of [] \<Rightarrow> None | x # _ \<Rightarrow> Some x) = Some y \<Longrightarrow> y \<in> set xs"
  by (cases xs; auto)+

lemma find_token_None:
  "find_by_new_token L cd cid = None \<longleftrightarrow> wrapper_name L cid \<notin> names cd"
  unfolding find_by_new_token_def first_cases(1) set_iter_archive_files names_def
  by (force simp: image_iff)

lemma find_token_Some:
  "find_by_new_token L cd cid = Some fp \<Longrightarrow> fp \<in> listed_paths cd"
  unfolding find_by_new_token_def
  by (drule first_cases(2)) (simp add: set_iter_archive_files)

lemma has_dir_listed: "listed_paths cd \<noteq> {} \<Longrightarrow> has_dir cd"
  by (auto simp: has_dir_def listed_paths_def)

lemma first_None_names:
  "(case iter_archive_files m cd of [] \<Rightarrow> None | fp # _ \<Rightarrow> Some fp) = None
     \<longleftrightarrow> (\<forall>n \<in> names cd. \<not> m n)"
  unfolding first_cases(1) set_iter_archive_files names_def
  by (force simp: image_iff)

lemma first_Some_listed:
  "(case iter_archive_files m cd of [] \<Rightarrow> None | fp # _ \<Rightarrow> Some fp) = Some fp
     \<Longrightarrow> fp \<in> listed_paths cd \<and> m (snd fp)"
  by (drule first_cases(2)) (simp add: set_iter_archive_files)

text \<open>The three results of the lookup by the legacy pattern: it raises when the
  pattern is rejected and there is a date directory, and otherwise finds a listed file
  that matches, or none.\<close>

lemma find_legacy_raises:
  "find_by_legacy_prefix L cd cid = Inl e
     \<longleftrightarrow> glob_error L (legacy_pattern cid) = Some e \<and> has_dir cd"
  by (auto simp: find_by_legacy_prefix_def split: option.splits)

lemma find_legacy_None:
  assumes "find_by_legacy_prefix L cd cid = Inr None"
      and "glob_error L (legacy_pattern cid) = None"
  shows "\<forall>n \<in> names cd. \<not> glob_match L (legacy_pattern cid) n"
  using assms by (simp add: find_by_legacy_prefix_def first_None_names)

lemma find_legacy_Some:
  assumes "find_by_legacy_prefix L cd cid = Inr (Some fp)"
  shows "fp \<in> listed_paths cd \<and> glob_error L (legacy_pattern cid) = None
         \<and> glob_match L (legacy_pattern cid) (snd fp)"
proof (cases "glob_error L (legacy_pattern cid)")
  case (Some e)
  then show ?thesis
    using assms by (simp add: find_by_legacy_prefix_def split: if_splits)
next
  case None
  then have "(case iter_archive_files (glob_match L (legacy_pattern cid)) cd of
                [] \<Rightarrow> None | fp # _ \<Rightarrow> Some fp) = Some fp"
    using assms by (simp add: find_by_legacy_prefix_def)
  from first_Some_listed[OF this] show ?thesis
    using None by simp
qed

lemma archive_ok_load:
  assumes "archive_ok L st cd" and "fp \<in> listed_paths cd"
  shows "\<exists>w. load_wrapper L cd fp = Some w \<and> sound_wrapper L st (snd fp) w"
proof -
  obtain d n where fp: "fp = (d, n)" by (cases fp)
  from assms(2) fp obtain listed files where
    h: "d \<in> set (entries cd)" "lookup_dir cd d = Some (listed, files)" "n \<in> set listed"
    by (auto simp: listed_paths_def)
  from assms(1) h obtain wtext w where
    "files n = Some wtext" "json_loads L wtext = Some w" "sound_wrapper L st n w"
    unfolding archive_ok_def by blast
  then show ?thesis
    using h fp by (auto simp: load_wrapper_def read_file_def)
qed

lemma scan_finds_nothing:
  assumes ok: "archive_ok L st cd"
      and no: "wrapper_name L cid \<notin> names cd" and ne: "cid \<noteq> []"
  shows "set fps \<subseteq> listed_paths cd \<Longrightarrow> metadata_scan L cd cid fps = Inr None"
proof (induction fps)
  case Nil
  then show ?case by simp
next
  case (Cons fp fps)
  then have in_l: "fp \<in> listed_paths cd" and rest: "metadata_scan L cd cid fps = Inr None"
    by auto
  from archive_ok_load[OF ok in_l] obtain w where
    w: "load_wrapper L cd fp = Some w" "sound_wrapper L st (snd fp) w" by blast
  have "snd fp \<in> names cd"
    using in_l by (auto simp: names_def)
  then have "snd fp \<noteq> wrapper_name L cid"
    using no by auto
  then have c: "wrapper_cid w \<noteq> Inr (JStr cid)" "\<exists>c. wrapper_cid w = Inr c" "truthy w"
    using w(2) ne by (auto simp: sound_wrapper_def split: sum.splits json.splits)
  then show ?case
    using w(1) rest by auto
qed

lemma find_cases:
  assumes ok: "archive_ok L st cd" and ne: "cid \<noteq> []"
  shows "(reachable L cd cid \<and> (\<exists>fp \<in> listed_paths cd.
            find_wrapper_path_for_conversation L cd cid = Inr (Some fp)))
       \<or> (\<not> reachable L cd cid \<and> find_wrapper_path_for_conversation L cd cid = Inr None)
       \<or> (\<not> reachable L cd cid \<and> has_dir cd
           \<and> (\<exists>e. glob_error L (legacy_pattern cid) = Some e
                  \<and> find_wrapper_path_for_conversation L cd cid = Inl e))"
proof (cases "find_by_new_token L cd cid")
  case (Some fp)
  then show ?thesis
    using find_token_Some[OF Some] find_token_None[of L cd cid]
    by (auto simp: find_wrapper_path_for_conversation_def reachable_def)
next
  case None
  note t = this
  then have tn: "wrapper_name L cid \<notin> names cd"
    by (simp add: find_token_None)
  show ?thesis
  proof (cases "find_by_legacy_prefix L cd cid")
    case (Inl e)
    then have r: "glob_error L (legacy_pattern cid) = Some e" "has_dir cd"
      by (simp_all add: find_legacy_raises)
    have "\<not> reachable L cd cid"
      using tn r(1) by (auto simp: reachable_def)
    then show ?thesis
      using t Inl r by (simp add: find_wrapper_path_for_conversation_def)
  next
    case (Inr found)
    show ?thesis
    proof (cases found)
      case (Some fp)
      with Inr have "find_by_legacy_prefix L cd cid = Inr (Some fp)" by simp
      from find_legacy_Some[OF this] have
        l: "fp \<in> listed_paths cd" "glob_error L (legacy_pattern cid) = None"
           "glob_match L (legacy_pattern cid) (snd fp)"
        by simp_all
      from l(1) have "snd fp \<in> names cd"
        by (auto simp: names_def)
      then have "reachable L cd cid"
        using l(2,3) by (auto simp: reachable_def)
      then show ?thesis
        using t Inr Some l(1) by (auto simp: find_wrapper_path_for_conversation_def)
    next
      case None
      with Inr have n: "find_by_legacy_prefix L cd cid = Inr None" by simp
      have "metadata_scan L cd cid (iter_archive_files (glob_match L ''conv-*.enc'') cd) = Inr None"
        using t by (intro scan_finds_nothing[OF ok _ ne])
                   (auto simp: find_token_None set_iter_archive_files)
      moreover have "\<not> reachable L cd cid"
        using tn find_legacy_None[OF n] by (auto simp: reachable_def)
      ultimately show ?thesis
        using t n
        by (simp add: find_wrapper_path_for_conversation_def find_by_metadata_scan_def)
    qed
  qed
qed

lemma sound_wrapper_valid:
  assumes "sound_wrapper L st n w"
  shows "\<exists>r. verify_wrapper L st cd cid fp w False = Inr (r, JNull) \<and> state r = VALID"
  using assms
  by (auto simp: sound_wrapper_def verify_wrapper_def Let_def
           split: sum.splits prod.splits option.splits)

text \<open>On an archive of sound wrappers, \<open>has_valid_conversation\<close> is true of an id
  the lookup reaches by name; of any other id it is false, or raises the
  \<open>ValueError\<close> of \<open>glob\<close> when the legacy pattern of the id is rejected and
  there is a date directory.\<close>

lemma has_valid_cases:
  assumes ok: "archive_ok L st cd" and ne: "cid \<noteq> []" and key: "\<not> key_mismatch st"
  shows "(reachable L cd cid \<and> has_valid_conversation L st cd cid = Inr True)
       \<or> (\<not> reachable L cd cid \<and> has_valid_conversation L st cd cid = Inr False)
       \<or> (\<not> reachable L cd cid \<and> has_dir cd
           \<and> (\<exists>e. glob_error L (legacy_pattern cid) = Some e
                  \<and> has_valid_conversation L st cd cid = Inl e))"
proof -
  from find_cases[OF ok ne] consider
    (found) fp where "reachable L cd cid" "fp \<in> listed_paths cd"
         "find_wrapper_path_for_conversation L cd cid = Inr (Some fp)"
  | (none) "\<not> reachable L cd cid" "find_wrapper_path_for_conversation L cd cid = Inr None"
  | (raised) e where "\<not> reachable L cd cid" "has_dir cd"
         "glob_error L (legacy_pattern cid) = Some e"
         "find_wrapper_path_for_conversation L cd cid = Inl e"
    by blast
  then show ?thesis
  proof cases
    case found
    from archive_ok_load[OF ok found(2)] obtain w where
      w: "load_wrapper L cd fp = Some w" "sound_wrapper L st (snd fp) w" by blast
    from sound_wrapper_valid[OF w(2), of cd cid fp] obtain r where
      "verify_wrapper L st cd cid fp w False = Inr (r, JNull)" "state r = VALID" by blast
    moreover have "truthy w"
      using w(2) by (simp add: sound_wrapper_def)
    ultimately show ?thesis
      using key found w(1)
      by (simp add: has_valid_conversation_def verify_conversation_def
            ensure_key_matches_manifest_def)
  next
    case none
    then show ?thesis
      using key
      by (simp add: has_valid_conversation_def verify_conversation_def
            ensure_key_matches_manifest_def)
  next
    case raised
    then show ?thesis
      using key
      by (simp add: has_valid_conversation_def verify_conversation_def
            ensure_key_matches_manifest_def)
  qed
qed

text \<open>An id that no file name answers and whose legacy pattern \<open>glob\<close> rejects:
  with a date directory in the archive the check raises, as it does for an id that
  begins with two stars.\<close>

lemma has_valid_raises:
  assumes "\<not> key_mismatch st" and "wrapper_name L cid \<notin> names cd"
      and "glob_error L (legacy_pattern cid) = Some e" and "has_dir cd"
  shows "has_valid_conversation L st cd cid = Inl e"
  using assms
  by (simp add: has_valid_conversation_def verify_conversation_def
        ensure_key_matches_manifest_def find_wrapper_path_for_conversation_def
        find_by_legacy_prefix_def find_token_None[symmetric])

lemma sim_two_stars_rejected:
  "glob_error sim_libs (legacy_pattern (''**'' @ cid)) = Some (ValueError ''Invalid pattern'')"
  by (simp add: legacy_pattern_def sim_glob_error_def)

lemma listed_paths_mkdir:
  "mkdir_date ev cd d = Inr cd1 \<Longrightarrow> listed_paths cd1 = listed_paths cd"
  by (auto simp: mkdir_date_def listed_paths_def lookup_dir_def split: if_splits option.splits)

lemma archive_ok_mkdir:
  "mkdir_date ev cd d = Inr cd1 \<Longrightarrow> archive_ok L st cd \<Longrightarrow> archive_ok L st cd1"
  unfolding archive_ok_def
  by (auto simp: mkdir_date_def lookup_dir_def split: if_splits option.splits)

lemma listed_paths_write:
  assumes "lookup_dir cd d = Some dir"
  shows "listed_paths (write_file cd (d, n) t) = insert (d, n) (listed_paths cd)"
proof -
  obtain listed files where lf: "dir = (listed, files)" by (cases dir)
  have d_in: "d \<in> set (entries cd)"
    using assms by (auto simp: lookup_dir_def split: if_splits)
  have same: "lookup_dir (write_file cd (d, n) t) d
                = Some (if n \<in> set listed then listed else listed @ [n], files(n \<mapsto> t))"
    using lookup_dir_write_same[of cd d listed files n t] assms lf by simp
  have other: "\<And>d'. d' \<noteq> d \<Longrightarrow> lookup_dir (write_file cd (d, n) t) d' = lookup_dir cd d'"
    by (simp add: lookup_dir_write_other)
  show ?thesis
  proof (intro set_eqI iffI)
    fix p assume "p \<in> listed_paths (write_file cd (d, n) t)"
    then show "p \<in> insert (d, n) (listed_paths cd)"
      using same other assms lf
      by (cases "fst p = d") (auto simp: listed_paths_def split: if_splits)
  next
    fix p assume "p \<in> insert (d, n) (listed_paths cd)"
    then show "p \<in> listed_paths (write_file cd (d, n) t)"
      using same other assms lf d_in
      by (cases "fst p = d") (auto simp: listed_paths_def split: if_splits)
  qed
qed

lemma archive_ok_write:
  assumes ok: "archive_ok L st cd" and dir: "lookup_dir cd d = Some dir"
      and w: "json_loads L t = Some w" "sound_wrapper L st n w"
  shows "archive_ok L st (write_file cd (d, n) t)"
proof -
  obtain listed files where lf: "dir = (listed, files)" by (cases dir)
  have same: "lookup_dir (write_file cd (d, n) t) d
                = Some (if n \<in> set listed then listed else listed @ [n], files(n \<mapsto> t))"
    using lookup_dir_write_same[of cd d listed files n t] dir lf by simp
  show ?thesis
    unfolding archive_ok_def
  proof (intro ballI allI impI)
    fix d' listed' files' n'
    assume a: "d' \<in> set (entries (write_file cd (d, n) t))"
              "lookup_dir (write_file cd (d, n) t) d' = Some (listed', files')"
              "n' \<in> set listed'"
    show "\<exists>wtext w. files' n' = Some wtext \<and> json_loads L wtext = Some w \<and> sound_wrapper L st n' w"
    proof (cases "d' = d")
      case True
      then have l: "listed' = (if n \<in> set listed then listed else listed @ [n])"
                   "files' = files(n \<mapsto> t)"
        using a(2) same by auto
      show ?thesis
      proof (cases "n' = n")
        case True
        then show ?thesis using l w by auto
      next
        case False
        then have "n' \<in> set listed" using a(3) l by (auto split: if_splits)
        moreover have "d \<in> set (entries cd)"
          using dir by (auto simp: lookup_dir_def split: if_splits)
        ultimately show ?thesis
          using ok dir lf l False unfolding archive_ok_def by fastforce
      qed
    next
      case False
      then have "lookup_dir cd d' = Some (listed', files')"
        using a(2) by (simp add: lookup_dir_write_other)
      then show ?thesis
        using ok a(1,3) unfolding archive_ok_def by fastforce
    qed
  qed
qed

lemma wrapper_cid_stored_obj:
  assumes "store_conv_id md = Inr conv_id" and "wrapper_name_value L conv_id = Inr name"
  shows "case wrapper_cid (stored_obj md b64 chk now) of
           Inr (JStr cid) \<Rightarrow> cid = [] \<or> name = wrapper_name L cid
         | Inr c \<Rightarrow> True
         | Inl e \<Rightarrow> False"
proof -
  from assms(1) obtain kvs where md: "md = JObj kvs"
    by (cases md) (auto simp: store_conv_id_def)
  show ?thesis
    using assms unfolding md
    by (auto simp: wrapper_cid_def store_conv_id_def split: option.splits json.splits if_splits)
qed

lemma sound_stored_obj:
  assumes "fernet_ok L" "b64_ok L"
      and "fernet_encrypt L (encryption_key st) ent b = Some c"
      and "store_conv_id md = Inr conv_id" and "wrapper_name_value L conv_id = Inr name"
  shows "sound_wrapper L st name (stored_obj md (b64encode L c) (sha256_hex L b) now)"
  using decrypt_fresh[OF assms(1,2,3), of "stored_obj md (b64encode L c) (sha256_hex L b) now"]
    wrapper_cid_stored_obj[OF assms(4,5), of "b64encode L c" "sha256_hex L b" now]
  by (simp add: sound_wrapper_def)

lemma store_try_shape:
  assumes "never_raise L" and "\<not> fault_write ev"
      and "store_try L st ev cd r md = (e, cd')"
  shows "cd' = cd
       \<or> (\<exists>cd1. mkdir_date ev cd (today ev) = Inr cd1
            \<and> (cd' = cd1
               \<or> (\<exists>b c conv_id name wtext.
                     fernet_encrypt L (encryption_key st) (entropy ev) b = Some c
                   \<and> store_conv_id md = Inr conv_id
                   \<and> wrapper_name_value L conv_id = Inr name
                   \<and> json_dumps L (stored_obj md (b64encode L c) (sha256_hex L b) (now_iso ev))
                        = Some wtext
                   \<and> cd' = write_file cd1 (today ev, name) wtext)))"
proof -
  have total: "\<And>v. \<exists>y. json_dumps L v = Some y"
    using assms(1) by (auto simp: never_raise_def)
  show ?thesis
  proof (cases "mkdir_date ev cd (today ev)")
    case (Inl x)
    then show ?thesis
      using assms(3) by (auto simp: store_try_def split: option.splits)
  next
    case (Inr cd1)
    show ?thesis
    proof (cases "cd' = cd \<or> cd' = cd1")
      case True
      then show ?thesis using Inr by auto
    next
      case False
      then obtain b c conv_id name where
        h: "json_dumps L r = Some b"
           "fernet_encrypt L (encryption_key st) (entropy ev) b = Some c"
           "store_conv_id md = Inr conv_id" "wrapper_name_value L conv_id = Inr name"
           "\<not> fault_open ev"
        using assms(3) Inr
        by (auto simp: store_try_def split: option.splits sum.splits if_splits)
      from total obtain wtext where
        d: "json_dumps L (stored_obj md (b64encode L c) (sha256_hex L b) (now_iso ev)) = Some wtext"
        by blast
      have "cd' = write_file cd1 (today ev, name) wtext"
        using assms(2,3) Inr h d by (auto simp: store_try_def split: if_splits)
      then show ?thesis
        using Inr h d by blast
    qed
  qed
qed

lemma store_preserves:
  assumes libs: "fernet_ok L" "b64_ok L" "json_ok L" "never_raise L"
      and w: "\<not> fault_write ev"
      and ok: "archive_ok L st cd"
  shows "archive_ok L st (snd (store_conversation L st ev cd r md))
       \<and> listed_paths cd \<subseteq> listed_paths (snd (store_conversation L st ev cd r md))"
proof -
  obtain e cd' where t: "store_try L st ev cd r md = (e, cd')"
    by (cases "store_try L st ev cd r md")
  then have s: "snd (store_conversation L st ev cd r md) = cd'"
    by (cases e) (simp_all add: store_conversation_def)
  from store_try_shape[OF libs(4) w t] show ?thesis
  proof (elim disjE exE conjE)
    assume "cd' = cd"
    then show ?thesis using ok s by simp
  next
    fix cd1 assume "mkdir_date ev cd (today ev) = Inr cd1" "cd' = cd1"
    then show ?thesis
      using ok s archive_ok_mkdir listed_paths_mkdir by auto
  next
    fix cd1 b c conv_id name wtext
    assume h: "mkdir_date ev cd (today ev) = Inr cd1"
       "fernet_encrypt L (encryption_key st) (entropy ev) b = Some c"
       "store_conv_id md = Inr conv_id"
       "wrapper_name_value L conv_id = Inr name"
       "json_dumps L (stored_obj md (b64encode L c) (sha256_hex L b) (now_iso ev)) = Some wtext"
       "cd' = write_file cd1 (today ev, name) wtext"
    from mkdir_date_dir[OF h(1)] obtain dir where d: "lookup_dir cd1 (today ev) = Some dir"
      by blast
    have l: "json_loads L wtext
               = Some (stored_obj md (b64encode L c) (sha256_hex L b) (now_iso ev))"
      using h(5) libs(3) by (simp add: json_ok_def)
    have "archive_ok L st cd'"
      unfolding h(6)
      by (rule archive_ok_write[OF archive_ok_mkdir[OF h(1) ok] d l
            sound_stored_obj[OF libs(1,2) h(2,3,4)]])
    moreover have "listed_paths cd \<subseteq> listed_paths cd'"
      unfolding h(6) listed_paths_write[OF d] using listed_paths_mkdir[OF h(1)] by auto
    ultimately show ?thesis using s by simp
  qed
qed

lemma store_makes_reachable:
  assumes "store_conversation L st ev cd r (JObj md) = (True, cd')"
      and "map_of md ''id'' = Some (JStr cid)" "cid \<noteq> []"
  shows "reachable L cd' cid"
proof -
  from store_success[OF assms] obtain cd1 dir wtext where
    h: "lookup_dir cd1 (today ev) = Some dir"
       "cd' = write_file cd1 (today ev, wrapper_name L cid) wtext"
    by blast
  have "(today ev, wrapper_name L cid) \<in> listed_paths cd'"
    unfolding h(2) listed_paths_write[OF h(1)] by simp
  then show ?thesis
    by (force simp: reachable_def names_def)
qed

lemma reachable_mono:
  "listed_paths cd \<subseteq> listed_paths cd' \<Longrightarrow> reachable L cd cid \<Longrightarrow> reachable L cd' cid"
  by (auto simp: reachable_def names_def)


section \<open>The export loop and resumption\<close>

lemma after_item_simps [simp]:
  "successful (after_item p) = successful p" "failed (after_item p) = failed p"
  "archive (after_item p) = archive p" "error_tags (after_item p) = error_tags p"
  by (simp_all add: after_item_def)

lemma map_of_dict_set_other:
  "k' \<noteq> k \<Longrightarrow> map_of (dict_set kvs k v) k' = map_of kvs k'"
  by (induction kvs) auto

lemma provenance_id:
  "map_of kvs ''id'' = Some v \<Longrightarrow>
     \<exists>md. provenance kvs job_id = JObj md \<and> map_of md ''id'' = Some v"
  by (simp add: provenance_def Let_def map_of_dict_set_other)

lemma listed_id_SomeD:
  "listed_id m = Some s \<Longrightarrow>
     \<exists>kvs. m = JObj kvs \<and> map_of kvs ''id'' = Some (JStr s) \<and> s \<noteq> [] \<and> s \<noteq> ''unknown''"
  by (auto simp: listed_id_def split: json.splits option.splits if_splits)

lemma process_item_ok:
  assumes libs: "fernet_ok L" "b64_ok L" "json_ok L" "never_raise L"
      and key: "\<not> key_mismatch st"
      and ok: "archive_ok L st (archive p)"
      and m: "listed_id m = Some s"
      and wr: "\<not> fault_write (store_env (item w i))"
  shows "\<exists>p'. process_item L st w force_refetch job_id i m p = Inr p'
           \<and> archive_ok L st (archive p')
           \<and> listed_paths (archive p) \<subseteq> listed_paths (archive p')
           \<and> ((successful p' = successful p + 1 \<and> failed p' = failed p
                  \<and> reachable L (archive p') s)
               \<or> (successful p' = successful p \<and> failed p' = failed p + 1))
           \<and> (\<not> force_refetch \<and> reachable L (archive p) s \<longrightarrow> successful p' = successful p + 1)"
proof -
  from listed_id_SomeD[OF m] obtain kvs where
    kvs: "m = JObj kvs" "map_of kvs ''id'' = Some (JStr s)" "s \<noteq> []" "s \<noteq> ''unknown''"
    by blast
  have get: "py_get m ''id'' (JStr ''unknown'') = Inr (JStr s)"
    using kvs by simp
  have hv: "(reachable L (archive p) s
               \<and> has_valid_value L st (archive p) (JStr s) = Inr True)
          \<or> (\<not> reachable L (archive p) s
               \<and> (has_valid_value L st (archive p) (JStr s) = Inr False
                   \<or> (\<exists>e. has_valid_value L st (archive p) (JStr s) = Inl e)))"
    using has_valid_cases[OF ok kvs(3) key] by auto
  have pre: "id_prefix w (JStr s) = Inr (take 8 s)"
    by simp
  let ?skip = "if \<not> force_refetch \<and> JStr s \<noteq> JStr ''unknown''
            then has_valid_value L st (archive p) (JStr s) else Inr False"
  consider (valid) "\<not> force_refetch" "reachable L (archive p) s" "?skip = Inr True"
    | (raised) e where "\<not> reachable L (archive p) s" "?skip = Inl e"
    | (fetch) "\<not> (\<not> force_refetch \<and> reachable L (archive p) s)" "?skip = Inr False"
    using hv kvs(4) by (cases force_refetch) auto
  then show ?thesis
  proof cases
    case valid
    then have "process_item L st w force_refetch job_id i m p
                 = Inr (p\<lparr>successful := successful p + 1\<rparr>)"
      using get by (simp add: process_item_def)
    then show ?thesis
      using ok valid by simp
  next
    case raised
    then have "process_item L st w force_refetch job_id i m p
                 = leaving (archive p) (on_exception w (JStr s) p)"
      using get by (simp add: process_item_def)
    then show ?thesis
      using ok raised(1) by (simp add: leaving_def on_exception_def)
  next
    case fetch
    note False = fetch(1) and skip = fetch(2)
    show ?thesis
    proof (cases "detail (item w i)")
      case (DetailPermissionError msg)
      then show ?thesis
        using get skip ok False
        by (simp add: process_item_def leaving_def on_permission_error_def)
    next
      case (DetailException msg)
      then show ?thesis
        using get skip ok False
        by (simp add: process_item_def leaving_def on_exception_def)
    next
      case (Detail full_conv)
      show ?thesis
      proof (cases "truthy full_conv")
        case nf: False
        then show ?thesis
          using get skip ok False Detail
          by (simp add: process_item_def Let_def)
      next
        case tf: True
        from provenance_id[OF kvs(2), of job_id] obtain md where
          md: "provenance kvs job_id = JObj md" "map_of md ''id'' = Some (JStr s)" by blast
        let ?r = "store_conversation L st (store_env (item w i)) (archive p) full_conv (JObj md)"
        have pres: "archive_ok L st (snd ?r)" "listed_paths (archive p) \<subseteq> listed_paths (snd ?r)"
          using store_preserves[OF libs wr ok, of full_conv "JObj md"] by auto
        show ?thesis
        proof (cases "fst ?r")
          case True
          then have "?r = (True, snd ?r)" by (simp add: prod_eq_iff)
          from store_makes_reachable[OF this md(2) kvs(3)] have "reachable L (snd ?r) s" .
          then show ?thesis
            using get skip Detail tf md(1) kvs(1) pres True False
            by (simp add: process_item_def Let_def)
        next
          case f: False
          then show ?thesis
            using get skip Detail tf md(1) kvs(1) pres False
            by (simp add: process_item_def Let_def)
        qed
      qed
    qed
  qed
qed

text \<open>Such an item is counted as failed by the handler of the loop, without a fetch
  and without a write.\<close>

lemma process_item_raises:
  assumes "listed_id m = Some s"
      and "has_valid_conversation L st (archive p) s = Inl e"
  shows "process_item L st w False job_id i m p
           = Inr (after_item
                    (p\<lparr>failed := failed p + 1,
                       detail_failures := detail_failures p + 1,
                       consecutive_detail_failures := consecutive_detail_failures p + 1,
                       error_tags := error_tags p @ [''detail_error:'' @ take 8 s]\<rparr>))"
proof -
  from listed_id_SomeD[OF assms(1)] obtain kvs where
    kvs: "m = JObj kvs" "map_of kvs ''id'' = Some (JStr s)" "s \<noteq> []" "s \<noteq> ''unknown''"
    by blast
  then show ?thesis
    using assms(2) by (simp add: process_item_def leaving_def on_exception_def)
qed

text \<open>On the archive of one stored conversation, an id that begins with two stars is
  such an item.\<close>

lemma names_one_file: "names (one_file d n t) = {n}"
  by (auto simp: names_def listed_paths_def lookup_dir_def one_file_def image_iff)

lemma has_dir_one_file: "has_dir (one_file d n t)"
  by (simp add: has_dir_def lookup_dir_def one_file_def)

lemma token_differs: "wrapper_name sim_libs ''**x'' \<noteq> wrapper_name sim_libs ''abc123''"
  by (simp add: wrapper_name_def file_token_def sim_sha256_hex_def sim_hex_def)

lemma starred_id_raises:
  "has_valid_conversation sim_libs sample_store stored_once ''**x''
     = Inl (ValueError ''Invalid pattern'')"
proof -
  have k: "\<not> key_mismatch sample_store" by (simp add: sample_store_def)
  have g: "glob_error sim_libs (legacy_pattern ''**x'') = Some (ValueError ''Invalid pattern'')"
    using sim_two_stars_rejected[of "''x''"] by simp
  show ?thesis
    by (rule has_valid_raises[OF k _ g])
       (simp_all add: stored_once_eq names_one_file has_dir_one_file token_differs
          del: sim_enc.simps)
qed

lemma starred_item_failed:
  "\<exists>p. process_item sim_libs sample_store world_up False job_id 0
          (JObj [(''id'', JStr ''**x'')]) (initial_progress stored_once) = Inr p
       \<and> successful p = 0 \<and> failed p = 1 \<and> archive p = stored_once
       \<and> error_tags p = [''detail_error:**x'']"
proof -
  have l: "listed_id (JObj [(''id'', JStr ''**x'')]) = Some ''**x''"
    by (simp add: listed_id_def)
  have h: "has_valid_conversation sim_libs sample_store (archive (initial_progress stored_once)) ''**x''
             = Inl (ValueError ''Invalid pattern'')"
    by (simp add: initial_progress_def starred_id_raises)
  show ?thesis
    unfolding process_item_raises[OF l h]
    by (simp add: initial_progress_def)
qed

lemma count_reachable_Cons:
  "count_reachable L cd (m # ms)
     = (case listed_id m of Some s \<Rightarrow> if reachable L cd s then 1 else 0 | None \<Rightarrow> 0)
       + count_reachable L cd ms"
  by (simp add: count_reachable_def split: option.splits)

lemma count_reachable_Nil [simp]: "count_reachable L cd [] = 0"
  by (simp add: count_reachable_def)

lemma count_reachable_mono:
  assumes "listed_paths cd \<subseteq> listed_paths cd'"
  shows "count_reachable L cd ms \<le> count_reachable L cd' ms"
proof (induction ms)
  case Nil
  then show ?case by simp
next
  case (Cons m ms)
  then show ?case
    using reachable_mono[OF assms, of L]
    by (auto simp: count_reachable_Cons split: option.splits)
qed

lemma process_items_ok:
  assumes libs: "fernet_ok L" "b64_ok L" "json_ok L" "never_raise L"
      and key: "\<not> key_mismatch st"
      and wr: "writes_complete w"
  shows "listing_ok ms \<Longrightarrow> archive_ok L st (archive p) \<Longrightarrow>
     \<exists>p'. process_items L st w force_refetch job_id i ms p = Inr p'
         \<and> archive_ok L st (archive p')
         \<and> listed_paths (archive p) \<subseteq> listed_paths (archive p')
         \<and> successful p' + failed p' = successful p + failed p + length ms
         \<and> successful p' \<le> successful p + count_reachable L (archive p') ms
         \<and> (\<not> force_refetch \<longrightarrow> successful p + count_reachable L (archive p) ms \<le> successful p')"
proof (induction ms arbitrary: i p)
  case Nil
  then show ?case by simp
next
  case (Cons m ms)
  from Cons.prems(1) obtain s where s: "listed_id m = Some s" and rest: "listing_ok ms"
    by (auto simp: listing_ok_def)
  have wi: "\<not> fault_write (store_env (item w i))"
    using wr by (simp add: writes_complete_def)
  from process_item_ok[OF libs key Cons.prems(2) s wi, of force_refetch job_id]
  obtain p1 where
    p1: "process_item L st w force_refetch job_id i m p = Inr p1"
        "archive_ok L st (archive p1)"
        "listed_paths (archive p) \<subseteq> listed_paths (archive p1)"
        "(successful p1 = successful p + 1 \<and> failed p1 = failed p \<and> reachable L (archive p1) s)
           \<or> (successful p1 = successful p \<and> failed p1 = failed p + 1)"
        "\<not> force_refetch \<and> reachable L (archive p) s \<longrightarrow> successful p1 = successful p + 1"
    by blast
  from Cons.IH[OF rest p1(2), of "Suc i"] obtain p' where
    p': "process_items L st w force_refetch job_id (Suc i) ms p1 = Inr p'"
        "archive_ok L st (archive p')"
        "listed_paths (archive p1) \<subseteq> listed_paths (archive p')"
        "successful p' + failed p' = successful p1 + failed p1 + length ms"
        "successful p' \<le> successful p1 + count_reachable L (archive p') ms"
        "\<not> force_refetch \<longrightarrow> successful p1 + count_reachable L (archive p1) ms \<le> successful p'"
    by blast
  have run: "process_items L st w force_refetch job_id i (m # ms) p = Inr p'"
    using p1(1) p'(1) by simp
  have sub: "listed_paths (archive p) \<subseteq> listed_paths (archive p')"
    using p1(3) p'(3) by blast
  have total: "successful p' + failed p' = successful p + failed p + length (m # ms)"
    using p1(4) p'(4) by auto
  have upper: "successful p' \<le> successful p + count_reachable L (archive p') (m # ms)"
    using p1(4) p'(5) reachable_mono[OF p'(3), of L s] s
    by (auto simp: count_reachable_Cons)
  have lower: "\<not> force_refetch \<longrightarrow>
                 successful p + count_reachable L (archive p) (m # ms) \<le> successful p'"
  proof
    assume nf: "\<not> force_refetch"
    have a: "successful p + (if reachable L (archive p) s then 1 else 0) \<le> successful p1"
      using p1(4,5) nf by auto
    have b: "count_reachable L (archive p) ms \<le> count_reachable L (archive p1) ms"
      by (rule count_reachable_mono[OF p1(3)])
    show "successful p + count_reachable L (archive p) (m # ms) \<le> successful p'"
      using a b p'(6) nf s by (simp add: count_reachable_Cons)
  qed
  show ?case
    using run p'(2) sub total upper lower by blast
qed

lemma filter_take_le: "length (filter P (take k xs)) \<le> length (filter P xs)"
proof -
  have "length (filter P xs) = length (filter P (take k xs)) + length (filter P (drop k xs))"
    by (metis append_take_drop_id filter_append length_append)
  then show ?thesis by simp
qed

lemma count_reachable_take:
  "count_reachable L cd (take k ms) \<le> count_reachable L cd ms"
  unfolding count_reachable_def by (rule filter_take_le)

lemma listing_ok_take: "listing_ok ms \<Longrightarrow> listing_ok (take k ms)"
  by (auto simp: listing_ok_def dest: in_set_takeD)

lemma resolve_job_row:
  "resolve_job w js resume = Inr (job_id, js') \<Longrightarrow> js' job_id \<noteq> None"
  by (auto simp: resolve_job_def get_job_def create_job_def split: option.splits if_splits)

lemma update_job_status_dom [simp]: "dom (update_job_status js job_id s u now) = dom js"
  by (auto simp: update_job_status_def split: option.splits)

lemma update_job_status_row:
  "js job_id = Some row \<Longrightarrow>
     update_job_status js job_id s u now job_id = Some (apply_update s u now row)"
  by (simp add: update_job_status_def)

lemma pre_checks_healthy: "healthy w ms \<Longrightarrow> pre_checks w = Inr (Inr ms)"
  by (auto simp: healthy_def pre_checks_def)

text \<open>
  C7, as the code has it. Take a store whose key matches the manifest, an archive
  holding only sound wrappers, and a listing of identifiable conversations; let an
  export run be interrupted after \<open>k\<close> items, and let \<open>_run_export_locked\<close> then
  be called with the id of its job and \<open>force_refetch\<close> false, in a world that passes
  the checks and lists the same conversations; let no wrapper write be cut short in
  either run. Then the call returns the job id, the job table has the rows it had, the
  row of the job is \<open>completed\<close> with \<open>total\<close> the length of the listing and
  \<open>successful + failed = total\<close>, and \<open>successful\<close> is at least the number of
  successes counted before the interrupt. The listing may hold ids whose legacy pattern
  \<open>glob\<close> rejects: where the check of such an id raises, the handler of the loop
  counts the item as failed, and an item stored before the interrupt is found under the
  name of its token, before the legacy pattern is tried.
\<close>

theorem resumed_export_counts:
  assumes libs: "fernet_ok L" "b64_ok L" "json_ok L" "never_raise L"
      and key: "\<not> key_mismatch st"
      and arch: "archive_ok L st cd"
      and lst: "listing w1 = Inr ms" "listing_ok ms"
      and wr: "writes_complete w1" "writes_complete w2"
      and run1: "interrupted_export L st w1 js cd resume1 force1 k = Some (job_id, js1, p1)"
      and idne: "job_id \<noteq> []"
      and h2: "healthy w2 ms"
  shows "\<exists>js2 cd2 row.
           run_export_locked L st w2 js1 (archive p1) (Some job_id) False = (Inr job_id, js2, cd2)
         \<and> dom js2 = dom js1 \<and> js2 job_id = Some row
         \<and> status row = ''completed''
         \<and> total_conversations row = length ms
         \<and> successful_conversations row + failed_conversations row = total_conversations row
         \<and> successful p1 \<le> successful_conversations row"
proof -
  from run1 obtain js0 ms1 where
    r: "resolve_job w1 js resume1 = Inr (job_id, js0)"
       "pre_checks w1 = Inr (Inr ms1)"
       "process_items L st w1 force1 job_id 0 (take k ms1) (initial_progress cd) = Inr p1"
       "js1 = update_job_status js0 job_id ''in_progress'' no_update (clock w1)"
    by (auto simp: interrupted_export_def split: sum.splits prod.splits if_splits)
  have ms1: "ms1 = ms"
    using r(2) lst(1)
    by (auto simp: pre_checks_def split: option.splits if_splits sum.splits)
  have a0: "archive_ok L st (archive (initial_progress cd))"
    using arch by (simp add: initial_progress_def)
  from process_items_ok[OF libs key wr(1) listing_ok_take[OF lst(2)] a0, of force1 job_id 0 k]
    r(3) ms1
  have p1: "archive_ok L st (archive p1)"
           "successful p1 \<le> count_reachable L (archive p1) (take k ms)"
    by (auto simp: initial_progress_def)
  obtain row1 where row1: "js1 job_id = Some row1"
    using resolve_job_row[OF r(1)] r(4) by (auto simp: update_job_status_def)
  have res2: "resolve_job w2 js1 (Some job_id) = Inr (job_id, js1)"
    using row1 idne by (simp add: resolve_job_def get_job_def)
  have a1: "archive_ok L st (archive (initial_progress (archive p1)))"
    using p1(1) by (simp add: initial_progress_def)
  from process_items_ok[OF libs key wr(2) lst(2) a1, of False job_id 0]
  obtain p2 where
    p2: "process_items L st w2 False job_id 0 ms (initial_progress (archive p1)) = Inr p2"
        "successful p2 + failed p2 = length ms"
        "count_reachable L (archive p1) ms \<le> successful p2"
    by (auto simp: initial_progress_def)
  let ?js = "update_job_status js1 job_id ''in_progress'' no_update (clock w2)"
  obtain row2 where row2: "?js job_id = Some row2"
    using row1 by (simp add: update_job_status_row)
  let ?u = "\<lparr>new_total = Some (length ms), new_successful = Some (successful p2),
             new_failed = Some (failed p2), new_errors = Some (error_tags p2)\<rparr>"
  have run2: "run_export_locked L st w2 js1 (archive p1) (Some job_id) False
                = (Inr job_id, update_job_status ?js job_id ''completed'' ?u (clock w2), archive p2)"
    using res2 pre_checks_healthy[OF h2] p2(1) by (simp add: run_export_locked_def Let_def)
  have le: "successful p1 \<le> successful p2"
    using p1(2) p2(3) count_reachable_take[of L "archive p1" k ms] by linarith
  show ?thesis
    using run2 row2 p2(2) le
    by (simp add: update_job_status_row apply_update_def)
qed

lemma has_valid_empty: "has_valid_conversation L st empty_dir cid = Inr False"
  by (simp add: has_valid_conversation_def verify_conversation_def
        find_wrapper_path_for_conversation_def find_by_new_token_def find_by_legacy_prefix_def
        find_by_metadata_scan_def iter_archive_files_def has_dir_def empty_dir_def
        split: option.splits)

lemma has_valid_poisoned: "key_mismatch st \<Longrightarrow> has_valid_conversation L st cd cid = Inr False"
  by (simp add: has_valid_conversation_def poisoned_verify)

lemma world_item [simp]:
  "item world_up i = \<lparr>detail = Detail sample_record, store_env = day ''2024-01-02''\<rparr>"
  "item world_down i = \<lparr>detail = Detail JNull, store_env = day ''2024-01-02''\<rparr>"
  by (simp_all add: world_up_def world_down_def)

lemma worlds_healthy: "healthy world_up sample_listing" "healthy world_down sample_listing"
  by (simp_all add: healthy_def world_up_def world_down_def)

lemma worlds_complete: "writes_complete world_up" "writes_complete world_down"
  by (simp_all add: writes_complete_def day_def)

lemma sample_listing_ok: "listing_ok sample_listing"
  by (simp add: listing_ok_def sample_listing_def listed_id_def)

lemma archive_ok_empty: "archive_ok L st empty_dir"
  by (simp add: archive_ok_def empty_dir_def)

lemma sim_store_provenance:
  "fst (store_conversation sim_libs st (day ''2024-01-02'') empty_dir sample_record
          (provenance [(''id'', JStr ''abc123'')] job_id))"
  by (simp add: store_conversation_def store_try_def mkdir_date_def day_def store_conv_id_def
        provenance_def sim_encrypt_def empty_dir_def del: sim_enc.simps)

lemma first_item_stored:
  "process_item sim_libs st world_up False job_id 0 (JObj [(''id'', JStr ''abc123'')])
      (initial_progress empty_dir)
     = Inr \<lparr>successful = 1, failed = 0, error_tags = [], detail_failures = 0,
            consecutive_detail_failures = 0,
            archive = snd (store_conversation sim_libs st (day ''2024-01-02'') empty_dir
                             sample_record (provenance [(''id'', JStr ''abc123'')] job_id))\<rparr>"
  using sim_store_provenance[of st job_id]
  by (simp add: process_item_def has_valid_empty initial_progress_def sample_record_def
        after_item_def Let_def)

lemma first_run_eval:
  "first_run st
     = Some (''job00001'',
             update_job_status
               [''job00001'' \<mapsto> \<lparr>started_at = ''2024-01-02T00:00:00'', completed_at = None,
                    total_conversations = 0, successful_conversations = 0,
                    failed_conversations = 0, errors = [], status = ''pending''\<rparr>]
               ''job00001'' ''in_progress'' no_update ''2024-01-02T00:00:00'',
             \<lparr>successful = 1, failed = 0, error_tags = [], detail_failures = 0,
              consecutive_detail_failures = 0,
              archive = snd (store_conversation sim_libs st (day ''2024-01-02'') empty_dir
                               sample_record (provenance [(''id'', JStr ''abc123'')] ''job00001''))\<rparr>)"
proof -
  have r: "resolve_job world_up Map.empty None
             = Inr (''job00001'',
                    [''job00001'' \<mapsto> \<lparr>started_at = ''2024-01-02T00:00:00'', completed_at = None,
                       total_conversations = 0, successful_conversations = 0,
                       failed_conversations = 0, errors = [], status = ''pending''\<rparr>])"
    by (simp add: resolve_job_def create_job_def world_up_def)
  have t: "take (Suc 0) sample_listing = [JObj [(''id'', JStr ''abc123'')]]"
    by (simp add: sample_listing_def)
  have c: "clock world_up = ''2024-01-02T00:00:00''"
    by (simp add: world_up_def)
  have n: "length sample_listing = 2"
    by (simp add: sample_listing_def)
  show ?thesis
    unfolding first_run_def interrupted_export_def r pre_checks_healthy[OF worlds_healthy(1)]
    by (simp add: t n first_item_stored c)
qed

lemma failing_item:
  assumes "key_mismatch st" and "listed_id m = Some s"
  shows "\<exists>p'. process_item sim_libs st world_down False job_id i m p = Inr p'
           \<and> successful p' = successful p \<and> failed p' = failed p + 1"
proof -
  from listed_id_SomeD[OF assms(2)] obtain kvs where
    kvs: "m = JObj kvs" "map_of kvs ''id'' = Some (JStr s)" "s \<noteq> []" "s \<noteq> ''unknown''"
    by blast
  show ?thesis
    using kvs has_valid_poisoned[OF assms(1)]
    by (simp add: process_item_def Let_def)
qed

lemma failing_items:
  assumes "key_mismatch st"
  shows "listing_ok ms \<Longrightarrow>
     \<exists>p'. process_items sim_libs st world_down False job_id i ms p = Inr p'
         \<and> successful p' = successful p \<and> failed p' = failed p + length ms"
proof (induction ms arbitrary: i p)
  case Nil
  then show ?case by simp
next
  case (Cons m ms)
  from Cons.prems obtain s where s: "listed_id m = Some s" and rest: "listing_ok ms"
    by (auto simp: listing_ok_def)
  from failing_item[OF assms s, of job_id i p] obtain p1 where
    p1: "process_item sim_libs st world_down False job_id i m p = Inr p1"
        "successful p1 = successful p" "failed p1 = failed p + 1" by blast
  from Cons.IH[OF rest, of "Suc i" p1] obtain p' where
    "process_items sim_libs st world_down False job_id (Suc i) ms p1 = Inr p'"
    "successful p' = successful p1" "failed p' = failed p1 + length ms" by blast
  then show ?case
    using p1 by simp
qed

theorem resumed_export_counts_witness:
  "fernet_ok sim_libs \<and> b64_ok sim_libs \<and> json_ok sim_libs \<and> never_raise sim_libs
   \<and> \<not> key_mismatch sample_store \<and> archive_ok sim_libs sample_store empty_dir
   \<and> listing_ok sample_listing \<and> writes_complete world_up \<and> writes_complete world_down
   \<and> healthy world_down sample_listing
   \<and> counted (first_run sample_store) = Some (''job00001'', 1)
   \<and> (\<exists>s f. job_row (resumed_run sample_store) ''job00001'' = Some (''completed'', 2, s, f)
             \<and> s + f = 2 \<and> 1 \<le> s)"
proof -
  have ok: "\<not> key_mismatch sample_store"
    by (simp add: sample_store_def)
  have l: "listing world_up = Inr sample_listing"
    by (simp add: world_up_def)
  have ne: "''job00001'' \<noteq> []"
    by simp
  have c: "counted (first_run sample_store) = Some (''job00001'', 1)"
    by (simp add: counted_def first_run_eval)
  have n: "length sample_listing = 2"
    by (simp add: sample_listing_def)
  from resumed_export_counts[OF sim_fernet_ok sim_b64_ok sim_json_ok sim_never_raise ok
      archive_ok_empty l sample_listing_ok worlds_complete
      first_run_eval[of sample_store, unfolded first_run_def] ne worlds_healthy(2)]
  have "\<exists>s f. job_row (resumed_run sample_store) ''job00001'' = Some (''completed'', 2, s, f)
             \<and> s + f = 2 \<and> 1 \<le> s"
    by (auto simp: job_row_def resumed_run_def first_run_eval n)
  then show ?thesis
    using sim_fernet_ok sim_b64_ok sim_json_ok sim_never_raise ok archive_ok_empty
      sample_listing_ok worlds_complete worlds_healthy(2) c
    by simp
qed

text \<open>
  C7, as the specification words it, fails: on a store whose key does not match the manifest the
  first run stores its item and counts it, nothing verifies in the resumed run, and when
  the detail fetches then return \<open>None\<close> the job ends with no success counted.
\<close>

theorem resumed_count_lost_counterexample:
  "counted (first_run poisoned_store) = Some (''job00001'', 1)
   \<and> job_row (resumed_run poisoned_store) ''job00001'' = Some (''completed'', 2, 0, 2)"
proof -
  have p: "key_mismatch poisoned_store"
    by (simp add: poisoned_store_def)
  from failing_items[OF p sample_listing_ok, of "''job00001''" 0
      "initial_progress (snd (store_conversation sim_libs poisoned_store (day ''2024-01-02'')
          empty_dir sample_record (provenance [(''id'', JStr ''abc123'')] ''job00001'')))"]
  obtain p2 where
    p2: "process_items sim_libs poisoned_store world_down False ''job00001'' 0 sample_listing
           (initial_progress (snd (store_conversation sim_libs poisoned_store (day ''2024-01-02'')
              empty_dir sample_record (provenance [(''id'', JStr ''abc123'')] ''job00001''))))
          = Inr p2"
        "successful p2 = 0" "failed p2 = 2"
    by (auto simp: initial_progress_def sample_listing_def)
  have c: "counted (first_run poisoned_store) = Some (''job00001'', 1)"
    by (simp add: counted_def first_run_eval)
  have r: "job_row (resumed_run poisoned_store) ''job00001'' = Some (''completed'', 2, 0, 2)"
    using p2
    by (simp add: job_row_def resumed_run_def first_run_eval run_export_locked_def
          resolve_job_def get_job_def update_job_status_def apply_update_def
          pre_checks_healthy[OF worlds_healthy(2)] Let_def)
       (simp add: sample_listing_def)
  show ?thesis using c r by simp
qed

end
